theory Spec2Isabelle
  imports Complex_Main "HOL-Library.Multiset"
begin

section \<open>Records written to files\<close>

text \<open>
  A post as \<open>_extract_post_data\<close> builds it. Of its sixteen fields the code reads
  \<open>id\<close> and \<open>created_utc\<close>; \<open>title\<close> stands for the fields that are only copied.
  \<open>data.get('id')\<close> is \<open>None\<close> when the key is missing or null, a string otherwise;
  \<open>created_utc\<close> is a number (seconds) or \<open>None\<close>.
\<close>

record post =
  post_id :: "string option"
  created_utc :: "int option"
  title :: "string option"

text \<open>A deal of market_scraper (the time stamp \<open>scraped_at\<close> is left out).\<close>

record deal =
  market :: string
  deal_title :: string
  price :: string
  image :: "string option"
  source :: string
  deal_url :: string

text \<open>
  The result document of \<open>scrape_all_markets\<close>: the statistics
  (\<open>scraped_at\<close> and \<open>duration_seconds\<close> left out) and the deals.
\<close>

record market_result =
  total_deals :: nat
  by_market_a101 :: nat
  by_market_bim :: nat
  by_market_sok :: nat
  deals :: "deal list"

text \<open>
  What a file holds after a write: nothing (opened for writing and closed), the JSON
  or CSV serialisation of a list of posts, or the JSON of a market result.
\<close>

datatype file_content =
    EmptyFile
  | JsonPosts "post list"
  | CsvPosts "post list"
  | MarketJson market_result

section \<open>The outside world: URLs, HTTP outcomes, observable events\<close>

text \<open>
  Both scripts talk to the network and sleep. The network is a parameter of the model:
  \<open>net n u\<close> is what the \<open>n\<close>-th HTTP request of the run receives when it asks for \<open>u\<close>,
  so every server behaviour is covered. What the code does to the world is recorded in
  a trace of events, in the order in which they happen.

  A naive \<open>datetime\<close> is an integer number of microseconds (the resolution of Python's
  \<open>datetime\<close>); only its order and \<open>+ timedelta\<close> are used by the code. Python's
  upper bound of the year 9999 is not modelled.
\<close>

type_synonym datetime = int

definition timedelta_days :: "int \<Rightarrow> int" where
  "timedelta_days d = d * 86400000000"

text \<open>
  The URLs the scripts build. A listing URL of reddit_scraper carries the sort mode and the
  query parameters \<open>after\<close> and \<open>t\<close> (each present only when set); a search URL carries
  the window whose bounds \<open>_scrape_chunk\<close> writes into the query, and \<open>after\<close>.
\<close>

datatype url =
    ListingUrl string "string option" "string option"
  | SearchUrl datetime datetime "string option"
  | PageUrl string

text \<open>
  The value of a \<open>Retry-After\<close> header as Python's \<open>int()\<close> sees it: text that
  parses to an integer, or text on which \<open>int()\<close> raises \<open>ValueError\<close>.
\<close>

datatype header_value = IntText int | OtherText

text \<open>
  Reading the body (\<open>resp.json()\<close>, \<open>response.text()\<close>) yields the payload, times out,
  or raises another exception.
\<close>

datatype 'a body = Body 'a | BodyTimeout | BodyError

text \<open>
  One HTTP attempt: a response with its status, its \<open>Retry-After\<close> header (if any) and
  its body, or \<open>asyncio.TimeoutError\<close>, or any other exception of \<open>session.get\<close>.
\<close>

datatype 'a http_outcome =
    Response nat "header_value option" "'a body"
  | RequestTimeout
  | RequestError

type_synonym 'a network = "nat \<Rightarrow> url \<Rightarrow> 'a http_outcome"

text \<open>
  Events: an HTTP request, \<open>asyncio.sleep\<close> of a fixed number of seconds,
  \<open>asyncio.sleep(random.uniform(lo, hi))\<close>, the log line of a chunk, a checkpoint write
  (the identifiers and the number of posts written) and the write of an output file.
\<close>

datatype event =
    Get url
  | Sleep int
  | RandomSleep rat rat
  | LogChunk datetime datetime
  | WriteCheckpoint "string option set" nat
  | WriteFile string file_content

record world =
  tick :: nat
  trace :: "event list"

definition emit :: "event \<Rightarrow> world \<Rightarrow> world" where
  "emit e w = w\<lparr>trace := trace w @ [e]\<rparr>"

definition issue :: "url \<Rightarrow> world \<Rightarrow> world" where
  "issue u w = emit (Get u) (w\<lparr>tick := Suc (tick w)\<rparr>)"

definition sleep :: "int \<Rightarrow> world \<Rightarrow> world" where
  "sleep secs w = emit (Sleep secs) w"

definition world0 :: "world" where
  "world0 = \<lparr>tick = 0, trace = []\<rparr>"

section \<open>reddit_scraper: \<open>_fetch_json\<close>\<close>

definition max_retries_json :: nat where
  "max_retries_json = 3"

text \<open>
  The body of \<open>for attempt in range(max_retries)\<close>, as a recursion over the attempts
  that are left. Every exception is caught inside the loop, so the function returns
  \<open>Some\<close> payload or \<open>None\<close> and never raises.
\<close>

fun fetch_attempts :: "'a network \<Rightarrow> url \<Rightarrow> nat list \<Rightarrow> world \<Rightarrow> 'a option \<times> world" where
  "fetch_attempts net u [] w = (None, w)"
| "fetch_attempts net u (attempt # rest) w =
     (case net (tick w) u of
        Response status hdr body \<Rightarrow>
          if status = 200 then
            (case body of
               Body j \<Rightarrow> (Some j, issue u w)
             | BodyTimeout \<Rightarrow> fetch_attempts net u rest (sleep 10 (issue u w))
             | BodyError \<Rightarrow> fetch_attempts net u rest (sleep 5 (issue u w)))
          else if status = 429 then
            (case hdr of
               None \<Rightarrow> fetch_attempts net u rest (sleep 60 (issue u w))
             | Some (IntText retry_after) \<Rightarrow>
                 fetch_attempts net u rest (sleep retry_after (issue u w))
             | Some OtherText \<Rightarrow> fetch_attempts net u rest (sleep 5 (issue u w)))
          else if status = 403 then (None, issue u w)
          else fetch_attempts net u rest (sleep 5 (issue u w))
      | RequestTimeout \<Rightarrow> fetch_attempts net u rest (sleep 10 (issue u w))
      | RequestError \<Rightarrow> fetch_attempts net u rest (sleep 5 (issue u w)))"

definition fetch_json :: "'a network \<Rightarrow> url \<Rightarrow> world \<Rightarrow> 'a option \<times> world" where
  "fetch_json net u w = fetch_attempts net u [0..<max_retries_json] w"

section \<open>market_scraper: \<open>random_delay\<close> and \<open>fetch_html\<close>\<close>

definition max_retries :: nat where
  "max_retries = 3"

definition base_delay :: "rat \<times> rat" where
  "base_delay = (2, 5)"

definition random_delay :: "world \<Rightarrow> world" where
  "random_delay w = emit (RandomSleep (fst base_delay) (snd base_delay)) w"

text \<open>
  \<open>fetch_html\<close> retries by calling itself with \<open>retries + 1\<close>. A 403, any other
  status, an exception other than a timeout, and a 429 or a timeout once
  \<open>retries\<close> has reached \<open>max_retries\<close> all fall through to \<open>return None\<close>.
\<close>

function fetch_html :: "'a network \<Rightarrow> url \<Rightarrow> nat \<Rightarrow> world \<Rightarrow> 'a option \<times> world" where
  "fetch_html net u retries w =
     (case net (tick (random_delay w)) u of
        Response status hdr body \<Rightarrow>
          if status = 200 then
            (case body of
               Body t \<Rightarrow> (Some t, issue u (random_delay w))
             | BodyTimeout \<Rightarrow>
                 if retries < max_retries
                 then fetch_html net u (retries + 1) (issue u (random_delay w))
                 else (None, issue u (random_delay w))
             | BodyError \<Rightarrow> (None, issue u (random_delay w)))
          else if status = 429 then
            (if retries < max_retries
             then fetch_html net u (retries + 1)
                    (sleep ((int retries + 1) * 10) (issue u (random_delay w)))
             else (None, issue u (random_delay w)))
          else if status = 403 then (None, issue u (random_delay w))
          else (None, issue u (random_delay w))
      | RequestTimeout \<Rightarrow>
          if retries < max_retries
          then fetch_html net u (retries + 1) (issue u (random_delay w))
          else (None, issue u (random_delay w))
      | RequestError \<Rightarrow> (None, issue u (random_delay w)))"
  by pat_completeness auto
termination
  by (relation "measure (\<lambda>(net, u, retries, w). max_retries - retries)") auto

declare fetch_html.simps [simp del]

section \<open>reddit_scraper: the scraper object and its checkpoint\<close>

text \<open>
  The exceptions of the model. \<open>TimestampError\<close> stands for what
  \<open>datetime.fromtimestamp\<close> raises on a number out of range (\<open>OverflowError\<close>,
  \<open>OSError\<close>, \<open>ValueError\<close>).
\<close>

datatype error = TypeError | AttributeError | OSError | JSONDecodeError | TimestampError

text \<open>
  The value under the key \<open>seen_ids\<close> of a parsed checkpoint, by what \<open>len\<close> and
  \<open>set\<close> do with it: the key is missing (\<open>data.get\<close> gives the default \<open>[]\<close>); an
  iterable of hashable values, normally the array of identifiers that
  \<open>_save_checkpoint\<close> wrote (strings, or null for a post without id); or a value on
  which \<open>len\<close> or \<open>set\<close> raises \<open>TypeError\<close> (null, a number, an array that contains
  arrays or objects).
\<close>

datatype seen_field = SeenMissing | SeenList "string option list" | SeenBad

text \<open>
  The content of a readable checkpoint file: not JSON (\<open>json.load\<close> raises), JSON
  that is not an object (\<open>data.get\<close> raises \<open>AttributeError\<close>), or an object.
\<close>

datatype ck_content = NotJson | NotObject | Object seen_field

datatype ckfile = Absent | Unreadable | Readable ck_content

text \<open>
  The dictionary \<open>_load_checkpoint\<close> returns: the default
  \<open>{'seen_ids': [], 'last_timestamp': None}\<close> or the parsed object.
\<close>

datatype checkpoint = DefaultCheckpoint | Loaded seen_field

text \<open>
  The instance attributes of \<open>RedditScraper\<close> that the code under study reads or
  writes. \<open>seen_ids\<close> is a Python set, \<open>posts\<close> a Python list.
\<close>

record scraper =
  start_date :: datetime
  end_date :: datetime
  output_format :: string
  output_file :: string
  delay_min :: rat
  delay_max :: rat
  posts :: "post list"
  seen_ids :: "string option set"
  checkpoint_data :: checkpoint

text \<open>
  The \<open>try\<close> block of \<open>_load_checkpoint\<close>: \<open>Inl\<close> is the exception it raises,
  \<open>Inr (Some d, sc)\<close> its \<open>return data\<close>, \<open>Inr (None, sc)\<close> leaving the block without
  a return (the file does not exist). \<open>set(...)\<close> is evaluated before the assignment to
  \<open>self.seen_ids\<close>, so an exception leaves \<open>seen_ids\<close> as it was.
\<close>

fun load_checkpoint_try :: "ckfile \<Rightarrow> scraper \<Rightarrow> error + (checkpoint option \<times> scraper)" where
  "load_checkpoint_try Absent sc = Inr (None, sc)"
| "load_checkpoint_try Unreadable sc = Inl OSError"
| "load_checkpoint_try (Readable NotJson) sc = Inl JSONDecodeError"
| "load_checkpoint_try (Readable NotObject) sc = Inl AttributeError"
| "load_checkpoint_try (Readable (Object SeenBad)) sc = Inl TypeError"
| "load_checkpoint_try (Readable (Object SeenMissing)) sc =
     Inr (Some (Loaded SeenMissing), sc\<lparr>seen_ids := set []\<rparr>)"
| "load_checkpoint_try (Readable (Object (SeenList ids))) sc =
     Inr (Some (Loaded (SeenList ids)), sc\<lparr>seen_ids := set ids\<rparr>)"

text \<open>\<open>except Exception\<close> logs a warning and falls through to the default.\<close>

definition load_checkpoint :: "ckfile \<Rightarrow> scraper \<Rightarrow> checkpoint \<times> scraper" where
  "load_checkpoint f sc =
     (case load_checkpoint_try f sc of
        Inl e \<Rightarrow> (DefaultCheckpoint, sc)
      | Inr (Some d, sc') \<Rightarrow> (d, sc')
      | Inr (None, sc') \<Rightarrow> (DefaultCheckpoint, sc'))"

text \<open>
  \<open>__init__\<close>, given the parsed dates: empty \<open>posts\<close> and \<open>seen_ids\<close>, then
  \<open>self.checkpoint_data = self._load_checkpoint()\<close>.
\<close>

definition init :: "ckfile \<Rightarrow> datetime \<Rightarrow> datetime \<Rightarrow> string \<Rightarrow> string \<Rightarrow> rat \<Rightarrow> rat \<Rightarrow> scraper" where
  "init f sd ed fmt file dmin dmax =
     (case load_checkpoint f
             \<lparr>start_date = sd, end_date = ed, output_format = fmt, output_file = file,
              delay_min = dmin, delay_max = dmax, posts = [], seen_ids = {},
              checkpoint_data = DefaultCheckpoint\<rparr> of
        (d, sc) \<Rightarrow> sc\<lparr>checkpoint_data := d\<rparr>)"

definition save_checkpoint :: "scraper \<Rightarrow> world \<Rightarrow> world" where
  "save_checkpoint sc w = emit (WriteCheckpoint (seen_ids sc) (length (posts sc))) w"

definition delay :: "scraper \<Rightarrow> world \<Rightarrow> world" where
  "delay sc w = emit (RandomSleep (delay_min sc) (delay_max sc)) w"

section \<open>reddit_scraper: listings and the extraction of a post\<close>

text \<open>
  The value under \<open>created_utc\<close> in a child's data: the key is missing, the value is
  null (or anything else on which \<open>datetime.fromtimestamp\<close> raises \<open>TypeError\<close>), or a
  number.
\<close>

datatype num_field = Missing | Null | Num int

record child_data =
  c_id :: "string option"
  c_created_utc :: num_field
  c_title :: "string option"

text \<open>
  A child of a listing: something on which \<open>.get\<close> raises (not an object, or its
  \<open>data\<close> is not one), or the fields of its \<open>data\<close>.
\<close>

datatype child = NotDict | Child child_data

text \<open>
  A fetched JSON document: falsy (null, an empty object, ...), truthy but not of the
  shape of a listing (\<open>.get\<close> raises \<open>AttributeError\<close>), or a listing with its
  children and its \<open>after\<close> token.
\<close>

datatype json_doc = Falsy | NonDict | Listing "child list" "string option"

text \<open>Python's truth value of an optional string: \<open>None\<close> and \<open>''\<close> are falsy.\<close>

definition truthy :: "string option \<Rightarrow> bool" where
  "truthy s = (case s of None \<Rightarrow> False | Some t \<Rightarrow> t \<noteq> [])"

text \<open>
  \<open>fromtimestamp\<close> is \<open>datetime.fromtimestamp\<close> on numbers, a parameter of the
  model (it depends on the local time zone): \<open>None\<close> when it raises (value out of
  range). In \<open>_extract_post_data\<close> every exception is caught and gives \<open>None\<close>;
  a missing \<open>created_utc\<close> converts the default 0 and leaves the field \<open>None\<close>.
\<close>

definition extract_post_data :: "(int \<Rightarrow> datetime option) \<Rightarrow> child \<Rightarrow> post option" where
  "extract_post_data fromtimestamp c =
     (case c of
        NotDict \<Rightarrow> None
      | Child d \<Rightarrow>
          (case c_created_utc d of
             Missing \<Rightarrow>
               (case fromtimestamp 0 of
                  None \<Rightarrow> None
                | Some created_date \<Rightarrow>
                    Some \<lparr>post_id = c_id d, created_utc = None, title = c_title d\<rparr>)
           | Null \<Rightarrow> None
           | Num n \<Rightarrow>
               (case fromtimestamp n of
                  None \<Rightarrow> None
                | Some created_date \<Rightarrow>
                    Some \<lparr>post_id = c_id d, created_utc = Some n, title = c_title d\<rparr>)))"

text \<open>
  \<open>datetime.fromtimestamp(post['created_utc'])\<close> in the drivers, outside any
  \<open>try\<close>: \<open>TypeError\<close> on \<open>None\<close>.
\<close>

definition post_date_of :: "(int \<Rightarrow> datetime option) \<Rightarrow> post \<Rightarrow> error + datetime" where
  "post_date_of fromtimestamp p =
     (case created_utc p of
        None \<Rightarrow> Inl TypeError
      | Some n \<Rightarrow> (case fromtimestamp n of None \<Rightarrow> Inl TimestampError | Some d \<Rightarrow> Inr d))"

section \<open>reddit_scraper: \<open>scrape_old_reddit_pagination\<close>\<close>

text \<open>
  The body of \<open>for child in children\<close> (lines 212 to 220), on the loop's variables
  \<open>count\<close>, \<open>total_count\<close> and the object.
\<close>

definition accept_child :: "(int \<Rightarrow> datetime option) \<Rightarrow> child \<Rightarrow> nat \<times> nat \<times> scraper \<Rightarrow> error + (nat \<times> nat \<times> scraper)" where
  "accept_child fromtimestamp c st =
     (case st of (cnt, total_count, sc) \<Rightarrow>
        (case extract_post_data fromtimestamp c of
           None \<Rightarrow> Inr (cnt, total_count, sc)
         | Some p \<Rightarrow>
             if post_id p \<notin> seen_ids sc then
               (case post_date_of fromtimestamp p of
                  Inl e \<Rightarrow> Inl e
                | Inr post_date \<Rightarrow>
                    if start_date sc \<le> post_date \<and> post_date \<le> end_date sc
                    then Inr (cnt + 1, total_count + 1,
                              sc\<lparr>posts := posts sc @ [p],
                                 seen_ids := insert (post_id p) (seen_ids sc)\<rparr>)
                    else Inr (cnt, total_count, sc))
             else Inr (cnt, total_count, sc)))"

fun accept_children :: "(int \<Rightarrow> datetime option) \<Rightarrow> child list \<Rightarrow> nat \<times> nat \<times> scraper \<Rightarrow> error + (nat \<times> nat \<times> scraper)" where
  "accept_children fromtimestamp [] st = Inr st"
| "accept_children fromtimestamp (c # cs) st =
     (case accept_child fromtimestamp c st of
        Inl e \<Rightarrow> Inl e
      | Inr st' \<Rightarrow> accept_children fromtimestamp cs st')"

text \<open>
  The \<open>while True\<close> loop (lines 192 to 230). It ends when the server stops sending a
  cursor, which the code cannot force, so the model takes fuel: \<open>None\<close> is a loop that
  has not ended within the fuel, \<open>Some (Inl e)\<close> an exception that leaves the function,
  \<open>Some (Inr (total_count, sc, w))\<close> the state at \<open>break\<close>.
\<close>

fun pagination_loop :: "nat \<Rightarrow> json_doc network \<Rightarrow> (int \<Rightarrow> datetime option) \<Rightarrow> string \<Rightarrow> string option
    \<Rightarrow> string option \<Rightarrow> nat \<Rightarrow> nat \<Rightarrow> scraper \<Rightarrow> world \<Rightarrow> (error + (nat \<times> scraper \<times> world)) option" where
  "pagination_loop 0 net fromtimestamp sort_mode time_filter after cnt total_count sc w = None"
| "pagination_loop (Suc fuel) net fromtimestamp sort_mode time_filter after cnt total_count sc w =
     (case fetch_json net
             (ListingUrl sort_mode (if truthy after then after else None)
                (if truthy time_filter then time_filter else None)) w of
        (data, w1) \<Rightarrow>
          (case data of
             None \<Rightarrow> Some (Inr (total_count, sc, w1))
           | Some Falsy \<Rightarrow> Some (Inr (total_count, sc, w1))
           | Some NonDict \<Rightarrow> Some (Inl AttributeError)
           | Some (Listing children next) \<Rightarrow>
               if children = [] then Some (Inr (total_count, sc, w1))
               else
                 (case accept_children fromtimestamp children (cnt, total_count, sc) of
                    Inl e \<Rightarrow> Some (Inl e)
                  | Inr (cnt', total_count', sc') \<Rightarrow>
                      if \<not> truthy next then Some (Inr (total_count', sc', w1))
                      else pagination_loop fuel net fromtimestamp sort_mode time_filter next
                             cnt' total_count' sc'
                             (delay sc'
                                (if 0 < cnt' \<and> cnt' mod 100 = 0
                                 then save_checkpoint sc' w1 else w1)))))"

text \<open>
  \<open>for time_filter in time_filters\<close>: each round sets \<open>after = None\<close> and
  \<open>count = 0\<close> and runs the loop on the object as the round before left it.
\<close>

fun for_time_filters :: "nat \<Rightarrow> json_doc network \<Rightarrow> (int \<Rightarrow> datetime option) \<Rightarrow> string
    \<Rightarrow> string option list \<Rightarrow> nat \<Rightarrow> scraper \<Rightarrow> world \<Rightarrow> (error + (nat \<times> scraper \<times> world)) option" where
  "for_time_filters fuel net fromtimestamp sort_mode [] total_count sc w =
     Some (Inr (total_count, sc, w))"
| "for_time_filters fuel net fromtimestamp sort_mode (time_filter # rest) total_count sc w =
     (case pagination_loop fuel net fromtimestamp sort_mode time_filter None 0 total_count sc w of
        None \<Rightarrow> None
      | Some (Inl e) \<Rightarrow> Some (Inl e)
      | Some (Inr (total_count', sc', w')) \<Rightarrow>
          for_time_filters fuel net fromtimestamp sort_mode rest total_count' sc' w')"

definition time_filters :: "string \<Rightarrow> string option list" where
  "time_filters sort_mode =
     (if sort_mode \<in> set [''top'', ''controversial'']
      then [Some ''month'', Some ''year'', Some ''all'']
      else [None])"

definition scrape_old_reddit_pagination :: "nat \<Rightarrow> json_doc network \<Rightarrow> (int \<Rightarrow> datetime option) \<Rightarrow> string
    \<Rightarrow> scraper \<Rightarrow> world \<Rightarrow> (error + (nat \<times> scraper \<times> world)) option" where
  "scrape_old_reddit_pagination fuel net fromtimestamp sort_mode sc w =
     for_time_filters fuel net fromtimestamp sort_mode (time_filters sort_mode) 0 sc w"

section \<open>reddit_scraper: \<open>scrape_search_api_chunked\<close> and \<open>_scrape_chunk\<close>\<close>

text \<open>The body of \<open>for child in children\<close> in \<open>_scrape_chunk\<close> (lines 295 to 301).\<close>

definition accept_child_chunk :: "(int \<Rightarrow> datetime option) \<Rightarrow> datetime \<Rightarrow> datetime \<Rightarrow> child \<Rightarrow> nat \<times> scraper \<Rightarrow> error + (nat \<times> scraper)" where
  "accept_child_chunk fromtimestamp start end c st =
     (case st of (cnt, sc) \<Rightarrow>
        (case extract_post_data fromtimestamp c of
           None \<Rightarrow> Inr (cnt, sc)
         | Some p \<Rightarrow>
             if post_id p \<notin> seen_ids sc then
               (case post_date_of fromtimestamp p of
                  Inl e \<Rightarrow> Inl e
                | Inr post_date \<Rightarrow>
                    if start \<le> post_date \<and> post_date < end
                    then Inr (cnt + 1,
                              sc\<lparr>posts := posts sc @ [p],
                                 seen_ids := insert (post_id p) (seen_ids sc)\<rparr>)
                    else Inr (cnt, sc))
             else Inr (cnt, sc)))"

fun accept_children_chunk :: "(int \<Rightarrow> datetime option) \<Rightarrow> datetime \<Rightarrow> datetime \<Rightarrow> child list \<Rightarrow> nat \<times> scraper \<Rightarrow> error + (nat \<times> scraper)" where
  "accept_children_chunk fromtimestamp start end [] st = Inr st"
| "accept_children_chunk fromtimestamp start end (c # cs) st =
     (case accept_child_chunk fromtimestamp start end c st of
        Inl e \<Rightarrow> Inl e
      | Inr st' \<Rightarrow> accept_children_chunk fromtimestamp start end cs st')"

text \<open>The \<open>while True\<close> loop of \<open>_scrape_chunk\<close> (lines 279 to 307), with fuel.\<close>

fun scrape_chunk_loop :: "nat \<Rightarrow> json_doc network \<Rightarrow> (int \<Rightarrow> datetime option) \<Rightarrow> datetime \<Rightarrow> datetime
    \<Rightarrow> string option \<Rightarrow> nat \<Rightarrow> scraper \<Rightarrow> world \<Rightarrow> (error + (nat \<times> scraper \<times> world)) option" where
  "scrape_chunk_loop 0 net fromtimestamp start end after cnt sc w = None"
| "scrape_chunk_loop (Suc fuel) net fromtimestamp start end after cnt sc w =
     (case fetch_json net (SearchUrl start end (if truthy after then after else None)) w of
        (data, w1) \<Rightarrow>
          (case data of
             None \<Rightarrow> Some (Inr (cnt, sc, w1))
           | Some Falsy \<Rightarrow> Some (Inr (cnt, sc, w1))
           | Some NonDict \<Rightarrow> Some (Inl AttributeError)
           | Some (Listing children next) \<Rightarrow>
               if children = [] then Some (Inr (cnt, sc, w1))
               else
                 (case accept_children_chunk fromtimestamp start end children (cnt, sc) of
                    Inl e \<Rightarrow> Some (Inl e)
                  | Inr (cnt', sc') \<Rightarrow>
                      if \<not> truthy next then Some (Inr (cnt', sc', w1))
                      else scrape_chunk_loop fuel net fromtimestamp start end next
                             cnt' sc' (delay sc' w1))))"

definition scrape_chunk :: "nat \<Rightarrow> json_doc network \<Rightarrow> (int \<Rightarrow> datetime option) \<Rightarrow> datetime \<Rightarrow> datetime
    \<Rightarrow> scraper \<Rightarrow> world \<Rightarrow> (error + (nat \<times> scraper \<times> world)) option" where
  "scrape_chunk fuel net fromtimestamp start end sc w =
     scrape_chunk_loop fuel net fromtimestamp start end None 0 sc w"

text \<open>
  The loop \<open>while current_start < self.end_date\<close> (lines 248 to 256) for a chunk
  width \<open>width\<close>; each round logs the window, scrapes it, and sleeps.
\<close>

fun chunked_loop :: "nat \<Rightarrow> json_doc network \<Rightarrow> (int \<Rightarrow> datetime option) \<Rightarrow> int \<Rightarrow> datetime
    \<Rightarrow> nat \<Rightarrow> scraper \<Rightarrow> world \<Rightarrow> (error + (nat \<times> scraper \<times> world)) option" where
  "chunked_loop 0 net fromtimestamp width current_start total_count sc w = None"
| "chunked_loop (Suc fuel) net fromtimestamp width current_start total_count sc w =
     (if current_start < end_date sc then
        (case scrape_chunk fuel net fromtimestamp current_start
                (min (current_start + width) (end_date sc)) sc
                (emit (LogChunk current_start (min (current_start + width) (end_date sc))) w) of
           None \<Rightarrow> None
         | Some (Inl e) \<Rightarrow> Some (Inl e)
         | Some (Inr (cnt, sc', w')) \<Rightarrow>
             chunked_loop fuel net fromtimestamp width
               (min (current_start + width) (end_date sc)) (total_count + cnt) sc'
               (delay sc' w'))
      else Some (Inr (total_count, sc, w)))"

definition chunk_days :: int where
  "chunk_days = 7"

definition scrape_search_api_chunked :: "nat \<Rightarrow> json_doc network \<Rightarrow> (int \<Rightarrow> datetime option)
    \<Rightarrow> scraper \<Rightarrow> world \<Rightarrow> (error + (nat \<times> scraper \<times> world)) option" where
  "scrape_search_api_chunked fuel net fromtimestamp sc w =
     chunked_loop fuel net fromtimestamp (timedelta_days chunk_days) (start_date sc) 0 sc w"

section \<open>reddit_scraper: \<open>scrape\<close>, \<open>save_output\<close> and \<open>main\<close>\<close>

text \<open>
  \<open>scrape\<close> calls \<open>scrape_old_reddit_pagination\<close> for five sort modes in a fixed
  order, each on the object as the call before left it, writes a final checkpoint and
  returns \<open>len(self.posts)\<close>.
\<close>

fun scrape_sorts :: "nat \<Rightarrow> json_doc network \<Rightarrow> (int \<Rightarrow> datetime option) \<Rightarrow> string list
    \<Rightarrow> scraper \<Rightarrow> world \<Rightarrow> (error + (scraper \<times> world)) option" where
  "scrape_sorts fuel net fromtimestamp [] sc w = Some (Inr (sc, w))"
| "scrape_sorts fuel net fromtimestamp (sort_mode # rest) sc w =
     (case scrape_old_reddit_pagination fuel net fromtimestamp sort_mode sc w of
        None \<Rightarrow> None
      | Some (Inl e) \<Rightarrow> Some (Inl e)
      | Some (Inr (cnt, sc', w')) \<Rightarrow> scrape_sorts fuel net fromtimestamp rest sc' w')"

definition scrape :: "nat \<Rightarrow> json_doc network \<Rightarrow> (int \<Rightarrow> datetime option)
    \<Rightarrow> scraper \<Rightarrow> world \<Rightarrow> (error + (nat \<times> scraper \<times> world)) option" where
  "scrape fuel net fromtimestamp sc w =
     (case scrape_sorts fuel net fromtimestamp
             [''new'', ''hot'', ''top'', ''rising'', ''controversial''] sc w of
        None \<Rightarrow> None
      | Some (Inl e) \<Rightarrow> Some (Inl e)
      | Some (Inr (sc', w')) \<Rightarrow> Some (Inr (length (posts sc'), sc', save_checkpoint sc' w')))"

text \<open>
  \<open>self.posts.sort(key=lambda x: x['created_utc'], reverse=True)\<close>. Python's sort is
  stable also with \<open>reverse=True\<close>: it reverses the list, sorts it in ascending order
  and reverses the result. Comparing \<open>None\<close> with anything raises \<open>TypeError\<close>, and
  every element of a list of two or more is compared at least once.
\<close>

definition created_key :: "post \<Rightarrow> int" where
  "created_key p = (case created_utc p of Some n \<Rightarrow> n | None \<Rightarrow> 0)"

definition sort_posts :: "post list \<Rightarrow> error + post list" where
  "sort_posts ps =
     (if 2 \<le> length ps \<and> (\<exists>p \<in> set ps. created_utc p = None) then Inl TypeError
      else Inr (rev (sort_key created_key (rev ps))))"

text \<open>
  \<open>save_output\<close>: nothing is written when \<open>self.posts\<close> is empty. For \<open>csv\<close> the
  file is first opened for writing and closed, then written. A format that is neither
  \<open>json\<close> nor \<open>csv\<close> sorts and writes nothing.
\<close>

definition save_output :: "scraper \<Rightarrow> world \<Rightarrow> error + (scraper \<times> world)" where
  "save_output sc w =
     (if posts sc = [] then Inr (sc, w)
      else
        (case sort_posts (posts sc) of
           Inl e \<Rightarrow> Inl e
         | Inr ps \<Rightarrow>
             if output_format sc = ''json''
             then Inr (sc\<lparr>posts := ps\<rparr>, emit (WriteFile (output_file sc) (JsonPosts ps)) w)
             else if output_format sc = ''csv''
             then Inr (sc\<lparr>posts := ps\<rparr>,
                       emit (WriteFile (output_file sc) (CsvPosts ps))
                         (emit (WriteFile (output_file sc) EmptyFile) w))
             else Inr (sc\<lparr>posts := ps\<rparr>, w)))"

text \<open>\<open>main\<close>: build the scraper, \<open>scrape\<close>, then \<open>save_output\<close>.\<close>

definition reddit_main :: "nat \<Rightarrow> json_doc network \<Rightarrow> (int \<Rightarrow> datetime option) \<Rightarrow> ckfile
    \<Rightarrow> datetime \<Rightarrow> datetime \<Rightarrow> string \<Rightarrow> string \<Rightarrow> rat \<Rightarrow> rat \<Rightarrow> world
    \<Rightarrow> (error + (scraper \<times> world)) option" where
  "reddit_main fuel net fromtimestamp f sd ed fmt file dmin dmax w =
     (case scrape fuel net fromtimestamp (init f sd ed fmt file dmin dmax) w of
        None \<Rightarrow> None
      | Some (Inl e) \<Rightarrow> Some (Inl e)
      | Some (Inr (n, sc, w')) \<Rightarrow> Some (save_output sc w'))"

section \<open>market_scraper: the scrapers, \<open>scrape_all_markets\<close>, \<open>save_results\<close>, \<open>main\<close>\<close>

text \<open>
  What BeautifulSoup finds is a parameter of the model: \<open>cards url html\<close> are the
  product cards that the selectors of the scraper of \<open>url\<close> find in \<open>html\<close>. A card
  is the text of its title and of its price and the \<open>src\<close> of its image, each \<open>None\<close>
  when not found, or a card whose processing raises (caught, the card is skipped).
\<close>

datatype card = BrokenCard | Card "string option" "string option" "string option"

definition upper_char :: "char \<Rightarrow> char" where
  "upper_char c =
     (if 97 \<le> (of_char c :: nat) \<and> (of_char c :: nat) \<le> 122
      then char_of ((of_char c :: nat) - 32) else c)"

definition upper :: "string \<Rightarrow> string" where
  "upper s = map upper_char s"

text \<open>
  The aggregator, SOK and A101 scrapers test the tags found (\<open>if title and price\<close>: a
  tag is truthy); the BIM scraper tests the two strings, so an empty text is skipped.
  \<open>if not html\<close> holds for \<open>None\<close> and for the empty string.
\<close>

definition deal_of_card :: "string \<Rightarrow> string \<Rightarrow> string \<Rightarrow> card \<Rightarrow> deal option" where
  "deal_of_card m src u c =
     (case c of
        BrokenCard \<Rightarrow> None
      | Card t p i \<Rightarrow>
          (case t of
             None \<Rightarrow> None
           | Some tt \<Rightarrow>
               (case p of
                  None \<Rightarrow> None
                | Some pp \<Rightarrow>
                    Some \<lparr>market = m, deal_title = tt, price = pp, image = i,
                          source = src, deal_url = u\<rparr>)))"

definition deal_of_bim_card :: "string \<Rightarrow> string \<Rightarrow> string \<Rightarrow> card \<Rightarrow> deal option" where
  "deal_of_bim_card m src u c =
     (case c of
        BrokenCard \<Rightarrow> None
      | Card t p i \<Rightarrow>
          (case t of
             None \<Rightarrow> None
           | Some tt \<Rightarrow>
               (case p of
                  None \<Rightarrow> None
                | Some pp \<Rightarrow>
                    if tt \<noteq> [] \<and> pp \<noteq> []
                    then Some \<lparr>market = m, deal_title = tt, price = pp, image = i,
                               source = src, deal_url = u\<rparr>
                    else None)))"

definition aggregator_url :: string where
  "aggregator_url = ''https://aktuel-urunler.com''"

definition direct_url_a101 :: string where
  "direct_url_a101 = ''https://www.a101.com.tr/afisler''"

definition direct_url_bim :: string where
  "direct_url_bim = ''https://www.bim.com.tr/Categories/100/aktuel-urunler.aspx''"

definition direct_url_sok :: string where
  "direct_url_sok = ''https://kurumsal.sokmarket.com.tr/haftanin-firsatlari/firsatlar''"

definition markets :: "string list" where
  "markets = [''a101'', ''bim'', ''sok'']"

definition output_file_market :: string where
  "output_file_market = ''market_deals.json''"

text \<open>\<open>for market in CONFIG["markets"]\<close> of \<open>scrape_aktuel_urunler\<close>.\<close>

fun aktuel_loop :: "string network \<Rightarrow> (string \<Rightarrow> string \<Rightarrow> card list) \<Rightarrow> string list
    \<Rightarrow> deal list \<Rightarrow> world \<Rightarrow> deal list \<times> world" where
  "aktuel_loop net cards [] ds w = (ds, w)"
| "aktuel_loop net cards (m # ms) ds w =
     (case fetch_html net (PageUrl (aggregator_url @ ''/'' @ m @ ''-aktuel-urunler/'')) 0 w of
        (None, w1) \<Rightarrow> aktuel_loop net cards ms ds w1
      | (Some html, w1) \<Rightarrow>
          if html = [] then aktuel_loop net cards ms ds w1
          else aktuel_loop net cards ms
                 (ds @ List.map_filter
                         (deal_of_card (upper m) ''aktuel-urunler.com''
                            (aggregator_url @ ''/'' @ m @ ''-aktuel-urunler/''))
                         (take 50 (cards (aggregator_url @ ''/'' @ m @ ''-aktuel-urunler/'')
                                     html)))
                 w1)"

definition scrape_aktuel_urunler :: "string network \<Rightarrow> (string \<Rightarrow> string \<Rightarrow> card list) \<Rightarrow> world
    \<Rightarrow> deal list \<times> world" where
  "scrape_aktuel_urunler net cards w = aktuel_loop net cards markets [] w"

definition scrape_sok_direct :: "string network \<Rightarrow> (string \<Rightarrow> string \<Rightarrow> card list) \<Rightarrow> world
    \<Rightarrow> deal list \<times> world" where
  "scrape_sok_direct net cards w =
     (case fetch_html net (PageUrl direct_url_sok) 0 w of
        (None, w1) \<Rightarrow> ([], w1)
      | (Some html, w1) \<Rightarrow>
          if html = [] then ([], w1)
          else (List.map_filter
                  (deal_of_card ''SOK'' ''kurumsal.sokmarket.com.tr'' direct_url_sok)
                  (take 50 (cards direct_url_sok html)), w1))"

definition scrape_bim_direct :: "string network \<Rightarrow> (string \<Rightarrow> string \<Rightarrow> card list) \<Rightarrow> world
    \<Rightarrow> deal list \<times> world" where
  "scrape_bim_direct net cards w =
     (case fetch_html net (PageUrl direct_url_bim) 0 w of
        (None, w1) \<Rightarrow> ([], w1)
      | (Some html, w1) \<Rightarrow>
          if html = [] then ([], w1)
          else (List.map_filter
                  (deal_of_bim_card ''BIM'' ''bim.com.tr'' direct_url_bim)
                  (take 100 (cards direct_url_bim html)), w1))"

definition scrape_a101_direct :: "string network \<Rightarrow> (string \<Rightarrow> string \<Rightarrow> card list) \<Rightarrow> world
    \<Rightarrow> deal list \<times> world" where
  "scrape_a101_direct net cards w =
     (case fetch_html net (PageUrl direct_url_a101) 0 w of
        (None, w1) \<Rightarrow> ([], w1)
      | (Some html, w1) \<Rightarrow>
          if html = [] then ([], w1)
          else (List.map_filter
                  (deal_of_card ''A101'' ''a101.com.tr'' direct_url_a101)
                  (take 50 (cards direct_url_a101 html)), w1))"

definition stats_of :: "deal list \<Rightarrow> market_result" where
  "stats_of all_deals =
     \<lparr>total_deals = length all_deals,
      by_market_a101 = length (filter (\<lambda>d. market d = ''A101'') all_deals),
      by_market_bim = length (filter (\<lambda>d. market d = ''BIM'') all_deals),
      by_market_sok = length (filter (\<lambda>d. market d = ''SOK'') all_deals),
      deals = all_deals\<rparr>"

text \<open>
  \<open>scrape_all_markets\<close>: the aggregator first; the three direct scrapers only when
  the aggregator gave no deal.
\<close>

definition scrape_all_markets :: "string network \<Rightarrow> (string \<Rightarrow> string \<Rightarrow> card list) \<Rightarrow> world
    \<Rightarrow> market_result \<times> world" where
  "scrape_all_markets net cards w =
     (case scrape_aktuel_urunler net cards w of
        (aggregator_deals, w1) \<Rightarrow>
          if length aggregator_deals = 0 then
            (case scrape_sok_direct net cards w1 of
               (sok_deals, w2) \<Rightarrow>
                 (case scrape_bim_direct net cards w2 of
                    (bim_deals, w3) \<Rightarrow>
                      (case scrape_a101_direct net cards w3 of
                         (a101_deals, w4) \<Rightarrow>
                           (stats_of (aggregator_deals @ sok_deals @ bim_deals @ a101_deals),
                            w4))))
          else (stats_of aggregator_deals, w1))"

definition save_results :: "market_result \<Rightarrow> world \<Rightarrow> world" where
  "save_results r w = emit (WriteFile output_file_market (MarketJson r)) w"

definition market_main :: "string network \<Rightarrow> (string \<Rightarrow> string \<Rightarrow> card list) \<Rightarrow> world
    \<Rightarrow> market_result \<times> world" where
  "market_main net cards w =
     (case scrape_all_markets net cards w of (r, w1) \<Rightarrow> (r, save_results r w1))"

section \<open>Properties of traces, and the spec's wording of the wait after a 429\<close>


text \<open>
  Every request of the trace comes right after a random sleep drawn from \<open>[lo, hi]\<close>.
\<close>

fun delay_before_each_get :: "rat \<Rightarrow> rat \<Rightarrow> event list \<Rightarrow> bool" where
  "delay_before_each_get lo hi [] = True"
| "delay_before_each_get lo hi (RandomSleep a b # Get u # es) =
     (a = lo \<and> b = hi \<and> delay_before_each_get lo hi es)"
| "delay_before_each_get lo hi (Get u # es) = False"
| "delay_before_each_get lo hi (e # es) = delay_before_each_get lo hi es"

fun is_random_sleep :: "event \<Rightarrow> bool" where
  "is_random_sleep (RandomSleep a b) = True"
| "is_random_sleep e = False"

text \<open>Some event of the trace writes an output file.\<close>

fun is_file_write :: "event \<Rightarrow> bool" where
  "is_file_write (WriteFile p c) = True"
| "is_file_write e = False"

definition output_written :: "event list \<Rightarrow> bool" where
  "output_written tr = list_ex is_file_write tr"

text \<open>
  The date the drivers compute for a post lies in the set \<open>D\<close> (and computing it does
  not raise).
\<close>

definition post_date_in :: "(int \<Rightarrow> datetime option) \<Rightarrow> datetime set \<Rightarrow> post \<Rightarrow> bool" where
  "post_date_in fromtimestamp D p =
     (case post_date_of fromtimestamp p of Inl e \<Rightarrow> False | Inr d \<Rightarrow> d \<in> D)"

text \<open>
  \<open>adds P sc new sc'\<close>: the object \<open>sc'\<close> is \<open>sc\<close> with the posts \<open>new\<close> appended and
  their identifiers added to \<open>seen_ids\<close>, nothing else changed; the identifiers of
  \<open>new\<close> are pairwise different and were not in \<open>seen_ids\<close> before, and every new post
  satisfies \<open>P\<close>.
\<close>

definition adds :: "(post \<Rightarrow> bool) \<Rightarrow> scraper \<Rightarrow> post list \<Rightarrow> scraper \<Rightarrow> bool" where
  "adds P sc new sc' \<longleftrightarrow>
     sc' = sc\<lparr>posts := posts sc @ new, seen_ids := seen_ids sc \<union> set (map post_id new)\<rparr>
     \<and> distinct (map post_id new)
     \<and> (\<forall>p \<in> set new. post_id p \<notin> seen_ids sc \<and> P p)"

text \<open>The events a fetcher produces itself: requests and fixed sleeps.\<close>

fun is_fetch_event :: "event \<Rightarrow> bool" where
  "is_fetch_event (Get u) = True"
| "is_fetch_event (Sleep d) = True"
| "is_fetch_event e = False"

text \<open>The windows logged in a trace, in order.\<close>

fun chunk_log :: "event list \<Rightarrow> (datetime \<times> datetime) list" where
  "chunk_log [] = []"
| "chunk_log (LogChunk s e # es) = (s, e) # chunk_log es"
| "chunk_log (x # es) = chunk_log es"


section \<open>Concrete servers and inputs on which the model is run\<close>

text \<open>A server that answers every request with 403.\<close>

definition net_forbidden :: "'a network" where
  "net_forbidden = (\<lambda>n u. Response 403 None BodyError)"

text \<open>A server that answers the first request with 429 (no header) and then with 403.\<close>

definition net_limited_then_forbidden :: "'a network" where
  "net_limited_then_forbidden =
     (\<lambda>n u. if n = 0 then Response 429 None BodyError else Response 403 None BodyError)"



definition net_limited_once :: "string network" where
  "net_limited_once =
     (\<lambda>n u. if n = 0 then Response 429 None BodyError else Response 200 None (Body ''ok''))"

text \<open>
  A local time zone that is UTC (\<open>fromtimestamp\<close> never raises), and pages in which
  BeautifulSoup finds no product card.
\<close>

definition fromtimestamp_utc :: "int \<Rightarrow> datetime option" where
  "fromtimestamp_utc t = Some (t * 1000000)"

definition no_cards :: "string \<Rightarrow> string \<Rightarrow> card list" where
  "no_cards u html = []"

text \<open>
  The dates 2024-01-01, 2024-01-08 and 2024-01-15 (days 19723, 19730 and 19737 after
  1970-01-01), and a scraper for 2024-01-01 to 2024-01-15 as \<open>__init__\<close> builds it
  when there is no checkpoint file.
\<close>

definition date_2024_01_01 :: datetime where
  "date_2024_01_01 = timedelta_days 19723"

definition date_2024_01_08 :: datetime where
  "date_2024_01_08 = timedelta_days 19730"

definition date_2024_01_15 :: datetime where
  "date_2024_01_15 = timedelta_days 19737"

definition sc_example :: scraper where
  "sc_example = init Absent date_2024_01_01 date_2024_01_15 ''json'' ''out.json'' 2 5"





text \<open>
  Three children of a listing: \<open>a\<close> of 2024-01-02, \<open>b\<close> of November 2023 and \<open>c\<close> of
  2024-01-03 (seconds since 1970-01-01), and the post extracted from \<open>a\<close>.
\<close>

definition child_a :: child where
  "child_a = Child \<lparr>c_id = Some ''a'', c_created_utc = Num 1704153600, c_title = Some ''A''\<rparr>"

definition child_b :: child where
  "child_b = Child \<lparr>c_id = Some ''b'', c_created_utc = Num 1700000000, c_title = Some ''B''\<rparr>"

definition child_c :: child where
  "child_c = Child \<lparr>c_id = Some ''c'', c_created_utc = Num 1704240000, c_title = Some ''C''\<rparr>"

definition post_of_a :: post where
  "post_of_a = \<lparr>post_id = Some ''a'', created_utc = Some 1704153600, title = Some ''A''\<rparr>"

text \<open>
  A server whose first answer is a page with \<open>a\<close>, \<open>b\<close> and \<open>a\<close> again and the cursor
  \<open>t1\<close>, whose second answer is a last page with \<open>c\<close>, and which answers 403 from
  then on.
\<close>

definition net_two_pages :: "json_doc network" where
  "net_two_pages =
     (\<lambda>n u. if n = 0 then Response 200 None (Body (Listing [child_a, child_b, child_a] (Some ''t1'')))
            else if n = 1 then Response 200 None (Body (Listing [child_c] None))
            else Response 403 None BodyError)"

text \<open>A scraper resumed from a checkpoint that holds the identifier \<open>c\<close>.\<close>

definition sc_resumed :: scraper where
  "sc_resumed = init (Readable (Object (SeenList [Some ''c''])))
     date_2024_01_01 date_2024_01_15 ''json'' ''out.json'' 2 5"

text \<open>The trace of a run of \<open>scrape\<close> against the server that answers 403 to everything.\<close>

definition trace_forbidden_run :: "event list" where
  "trace_forbidden_run =
     [Get (ListingUrl ''new'' None None),
      Get (ListingUrl ''hot'' None None),
      Get (ListingUrl ''top'' None (Some ''month'')),
      Get (ListingUrl ''top'' None (Some ''year'')),
      Get (ListingUrl ''top'' None (Some ''all'')),
      Get (ListingUrl ''rising'' None None),
      Get (ListingUrl ''controversial'' None (Some ''month'')),
      Get (ListingUrl ''controversial'' None (Some ''year'')),
      Get (ListingUrl ''controversial'' None (Some ''all'')),
      WriteCheckpoint {} 0]"

section \<open>Facts about the two fetchers\<close>

lemma tick_issue [simp]: "tick (issue u w) = Suc (tick w)"
  by (simp add: issue_def emit_def)

lemma tick_sleep [simp]: "tick (sleep d w) = tick w"
  by (simp add: sleep_def emit_def)

lemma tick_random_delay [simp]: "tick (random_delay w) = tick w"
  by (simp add: random_delay_def emit_def)

lemma trace_issue [simp]: "trace (issue u w) = trace w @ [Get u]"
  by (simp add: issue_def emit_def)

lemma trace_sleep [simp]: "trace (sleep d w) = trace w @ [Sleep d]"
  by (simp add: sleep_def emit_def)

lemma trace_random_delay [simp]: "trace (random_delay w) = trace w @ [RandomSleep 2 5]"
  by (simp add: random_delay_def emit_def base_delay_def)

lemma fetch_attempts_step:
  "fetch_attempts net u (a # as) w = (None, issue u w)
   \<or> (\<exists>j. fetch_attempts net u (a # as) w = (Some j, issue u w))
   \<or> (\<exists>d. fetch_attempts net u (a # as) w = fetch_attempts net u as (sleep d (issue u w)))"
  by (auto split: http_outcome.splits body.splits option.splits header_value.splits)



lemma fetch_html_step:
  assumes "fetch_html net u r w = res"
  shows "res = (None, issue u (random_delay w))
   \<or> (\<exists>t. res = (Some t, issue u (random_delay w)))
   \<or> (r < max_retries \<and> res = fetch_html net u (r + 1) (issue u (random_delay w)))
   \<or> (r < max_retries \<and>
        res = fetch_html net u (r + 1) (sleep ((int r + 1) * 10) (issue u (random_delay w))))"
  using assms
  by (subst (asm) fetch_html.simps)
     (auto split: http_outcome.splits body.splits if_splits)



lemma fetch_html_delays_aux:
  "max_retries - r = n \<Longrightarrow>
     \<exists>evs. trace (snd (fetch_html net u r w)) = trace w @ evs \<and> delay_before_each_get 2 5 evs"
proof (induction n arbitrary: r w)
  case 0
  then have "\<not> r < max_retries" by simp
  then have "trace (snd (fetch_html net u r w)) = trace w @ [RandomSleep 2 5, Get u]"
    using fetch_html_step [OF refl, of net u r w] by auto
  then show ?case by simp
next
  case (Suc n)
  then have m: "max_retries - (r + 1) = n" by simp
  from Suc.IH [OF m, of "issue u (random_delay w)"]
  obtain e1 where e1: "trace (snd (fetch_html net u (r + 1) (issue u (random_delay w))))
        = trace w @ [RandomSleep 2 5, Get u] @ e1" "delay_before_each_get 2 5 e1"
    by auto
  from Suc.IH [OF m, of "sleep ((int r + 1) * 10) (issue u (random_delay w))"]
  obtain e2 where e2: "trace (snd (fetch_html net u (r + 1)
          (sleep ((int r + 1) * 10) (issue u (random_delay w)))))
        = trace w @ [RandomSleep 2 5, Get u, Sleep ((int r + 1) * 10)] @ e2"
      "delay_before_each_get 2 5 e2"
    by auto
  have d1: "delay_before_each_get 2 5 ([RandomSleep 2 5, Get u] @ e1)"
    using e1(2) by simp
  have d2: "delay_before_each_get 2 5 ([RandomSleep 2 5, Get u, Sleep ((int r + 1) * 10)] @ e2)"
    using e2(2) by simp
  have d0: "delay_before_each_get 2 5 [RandomSleep 2 5, Get u]"
    by simp
  consider "trace (snd (fetch_html net u r w)) = trace w @ [RandomSleep 2 5, Get u]"
    | "trace (snd (fetch_html net u r w)) = trace w @ [RandomSleep 2 5, Get u] @ e1"
    | "trace (snd (fetch_html net u r w)) = trace w @ [RandomSleep 2 5, Get u, Sleep ((int r + 1) * 10)] @ e2"
    using fetch_html_step [OF refl, of net u r w] e1(1) e2(1) by auto
  then show ?case
    using d0 d1 d2 by cases blast+
qed

lemma fetch_attempts_no_random_sleep:
  "\<exists>evs. trace (snd (fetch_attempts net u as w)) = trace w @ evs
         \<and> \<not> list_ex is_random_sleep evs"
proof (induction as arbitrary: w)
  case Nil
  then show ?case by simp
next
  case (Cons a as)
  have rec: "\<exists>evs. trace (snd (fetch_attempts net u as (sleep d (issue u w)))) = trace w @ evs
         \<and> \<not> list_ex is_random_sleep evs" for d
  proof -
    from Cons.IH [of "sleep d (issue u w)"] obtain evs where
      "trace (snd (fetch_attempts net u as (sleep d (issue u w)))) = trace w @ [Get u, Sleep d] @ evs"
      "\<not> list_ex is_random_sleep evs" by auto
    then have "trace (snd (fetch_attempts net u as (sleep d (issue u w)))) = trace w @ ([Get u, Sleep d] @ evs)
       \<and> \<not> list_ex is_random_sleep ([Get u, Sleep d] @ evs)" by simp
    then show ?thesis by blast
  qed
  have one: "\<exists>evs. trace (issue u w) = trace w @ evs \<and> \<not> list_ex is_random_sleep evs"
    by simp
  show ?case
    using fetch_attempts_step [of net u a as w] rec one
    by (auto simp del: fetch_attempts.simps)
qed

section \<open>What accepting posts does to the object\<close>

lemma adds_nil: "adds P sc [] sc"
  by (simp add: adds_def)

lemma adds_trans:
  assumes "adds P a n1 b" and "adds P b n2 c"
  shows "adds P a (n1 @ n2) c"
proof -
  from assms(1) have b: "b = a\<lparr>posts := posts a @ n1, seen_ids := seen_ids a \<union> set (map post_id n1)\<rparr>"
    and d1: "distinct (map post_id n1)" and p1: "\<forall>p \<in> set n1. post_id p \<notin> seen_ids a \<and> P p"
    by (simp_all add: adds_def)
  from assms(2) have c: "c = b\<lparr>posts := posts b @ n2, seen_ids := seen_ids b \<union> set (map post_id n2)\<rparr>"
    and d2: "distinct (map post_id n2)" and p2: "\<forall>p \<in> set n2. post_id p \<notin> seen_ids b \<and> P p"
    by (simp_all add: adds_def)
  have sb: "seen_ids b = seen_ids a \<union> set (map post_id n1)"
    using b by simp
  have "c = a\<lparr>posts := posts a @ (n1 @ n2),
               seen_ids := seen_ids a \<union> set (map post_id (n1 @ n2))\<rparr>"
    using b c by (simp add: Un_assoc)
  moreover have "set (map post_id n1) \<inter> set (map post_id n2) = {}"
  proof -
    have "x \<notin> set (map post_id n1)" if "x \<in> set (map post_id n2)" for x
    proof -
      from that obtain p where "p \<in> set n2" "x = post_id p" by auto
      with p2 have "x \<notin> seen_ids b" by simp
      then show ?thesis using sb by simp
    qed
    then show ?thesis by blast
  qed
  then have "distinct (map post_id (n1 @ n2))"
    using d1 d2 by simp
  moreover have "\<forall>p \<in> set (n1 @ n2). post_id p \<notin> seen_ids a \<and> P p"
    using p1 p2 sb by auto
  ultimately show ?thesis
    by (simp only: adds_def)
qed

lemma adds_mono:
  assumes "adds P a n b" and "\<And>p. P p \<Longrightarrow> Q p"
  shows "adds Q a n b"
  using assms by (auto simp: adds_def)

lemma adds_config:
  assumes "adds P a n b"
  shows "start_date b = start_date a" "end_date b = end_date a"
    "delay_min b = delay_min a" "delay_max b = delay_max a"
    "output_format b = output_format a" "output_file b = output_file a"
    "checkpoint_data b = checkpoint_data a"
  using assms by (auto simp: adds_def)

lemma accept_child_adds:
  assumes "accept_child ft c (cnt, tot, sc) = Inr (cnt', tot', sc')"
  shows "\<exists>new. adds (post_date_in ft {start_date sc..end_date sc}) sc new sc'
           \<and> cnt' = cnt + length new \<and> tot' = tot + length new"
proof (cases "extract_post_data ft c")
  case None
  with assms have "sc' = sc" "cnt' = cnt" "tot' = tot"
    by (simp_all add: accept_child_def)
  then show ?thesis using adds_nil [of _ sc] by force
next
  case (Some p)
  show ?thesis
  proof (cases "post_id p \<notin> seen_ids sc
      \<and> post_date_in ft {start_date sc..end_date sc} p")
    case True
    then obtain d where d: "post_date_of ft p = Inr d" "start_date sc \<le> d" "d \<le> end_date sc"
      by (auto simp: post_date_in_def split: sum.splits)
    with Some True assms have "sc' = sc\<lparr>posts := posts sc @ [p],
        seen_ids := insert (post_id p) (seen_ids sc)\<rparr>" "cnt' = cnt + 1" "tot' = tot + 1"
      by (simp_all add: accept_child_def)
    then have "adds (post_date_in ft {start_date sc..end_date sc}) sc [p] sc'
        \<and> cnt' = cnt + length [p] \<and> tot' = tot + length [p]"
      using True by (simp add: adds_def)
    then show ?thesis by blast
  next
    case False
    with Some assms have "sc' = sc" "cnt' = cnt" "tot' = tot"
      by (auto simp: accept_child_def post_date_in_def split: sum.splits if_splits)
    then show ?thesis using adds_nil [of _ sc] by force
  qed
qed

lemma accept_children_adds:
  assumes "accept_children ft cs (cnt, tot, sc) = Inr (cnt', tot', sc')"
  shows "\<exists>new. adds (post_date_in ft {start_date sc..end_date sc}) sc new sc'
           \<and> cnt' = cnt + length new \<and> tot' = tot + length new"
  using assms
proof (induction cs arbitrary: cnt tot sc)
  case Nil
  then have "sc' = sc" "cnt' = cnt" "tot' = tot" by simp_all
  then show ?case using adds_nil [of _ sc] by force
next
  case (Cons c cs)
  from Cons.prems obtain c1 t1 s1 where
    one: "accept_child ft c (cnt, tot, sc) = Inr (c1, t1, s1)"
    and more: "accept_children ft cs (c1, t1, s1) = Inr (cnt', tot', sc')"
    by (auto split: sum.splits)
  from accept_child_adds [OF one] obtain n1 where
    n1: "adds (post_date_in ft {start_date sc..end_date sc}) sc n1 s1"
      "c1 = cnt + length n1" "t1 = tot + length n1"
    by blast
  from Cons.IH [OF more] obtain n2 where
    n2: "adds (post_date_in ft {start_date s1..end_date s1}) s1 n2 sc'"
      "cnt' = c1 + length n2" "tot' = t1 + length n2"
    by blast
  have "adds (post_date_in ft {start_date sc..end_date sc}) s1 n2 sc'"
    using n2(1) adds_config [OF n1(1)] by simp
  with n1(1) have "adds (post_date_in ft {start_date sc..end_date sc}) sc (n1 @ n2) sc'"
    by (rule adds_trans)
  moreover have "cnt' = cnt + length (n1 @ n2)" "tot' = tot + length (n1 @ n2)"
    using n1 n2 by simp_all
  ultimately show ?case by blast
qed

section \<open>The pagination driver only adds unseen posts in the date range\<close>

lemma pagination_loop_cases:
  assumes "pagination_loop (Suc fuel) net ft sm tf after cnt tot sc w = Some (Inr (tot', sc', w'))"
  obtains
    (stop) "sc' = sc" "tot' = tot"
      "w' = snd (fetch_json net (ListingUrl sm (if truthy after then after else None)
                   (if truthy tf then tf else None)) w)"
  | (last) cs nxt cnt1 where
      "fetch_json net (ListingUrl sm (if truthy after then after else None)
          (if truthy tf then tf else None)) w = (Some (Listing cs nxt), w')"
      "accept_children ft cs (cnt, tot, sc) = Inr (cnt1, tot', sc')"
  | (more) cs nxt cnt1 tot1 sc1 w1 where
      "fetch_json net (ListingUrl sm (if truthy after then after else None)
          (if truthy tf then tf else None)) w = (Some (Listing cs nxt), w1)"
      "accept_children ft cs (cnt, tot, sc) = Inr (cnt1, tot1, sc1)"
      "truthy nxt"
      "pagination_loop fuel net ft sm tf nxt cnt1 tot1 sc1
         (delay sc1 (if 0 < cnt1 \<and> cnt1 mod 100 = 0 then save_checkpoint sc1 w1 else w1))
       = Some (Inr (tot', sc', w'))"
  using assms
  by (auto split: prod.splits option.splits json_doc.splits sum.splits if_splits)

lemma pagination_loop_adds:
  assumes "pagination_loop fuel net ft sm tf after cnt tot sc w = Some (Inr (tot', sc', w'))"
  shows "\<exists>new. adds (post_date_in ft {start_date sc..end_date sc}) sc new sc'
           \<and> tot' = tot + length new"
  using assms
proof (induction fuel arbitrary: after cnt tot sc w)
  case 0
  then show ?case by simp
next
  case (Suc fuel)
  from Suc.prems show ?case
  proof (cases rule: pagination_loop_cases)
    case stop
    then show ?thesis using adds_nil [of _ sc] by force
  next
    case (last cs nxt cnt1)
    from accept_children_adds [OF last(2)] show ?thesis by blast
  next
    case (more cs nxt cnt1 tot1 sc1 w1)
    from accept_children_adds [OF more(2)] obtain n1 where
      n1: "adds (post_date_in ft {start_date sc..end_date sc}) sc n1 sc1" "tot1 = tot + length n1"
      by blast
    from Suc.IH [OF more(4)] obtain n2 where
      n2: "adds (post_date_in ft {start_date sc1..end_date sc1}) sc1 n2 sc'" "tot' = tot1 + length n2"
      by blast
    have "adds (post_date_in ft {start_date sc..end_date sc}) sc1 n2 sc'"
      using n2(1) adds_config [OF n1(1)] by simp
    with n1(1) have "adds (post_date_in ft {start_date sc..end_date sc}) sc (n1 @ n2) sc'"
      by (rule adds_trans)
    moreover have "tot' = tot + length (n1 @ n2)"
      using n1 n2 by simp
    ultimately show ?thesis by blast
  qed
qed

lemma for_time_filters_adds:
  assumes "for_time_filters fuel net ft sm tfs tot sc w = Some (Inr (tot', sc', w'))"
  shows "\<exists>new. adds (post_date_in ft {start_date sc..end_date sc}) sc new sc'
           \<and> tot' = tot + length new"
  using assms
proof (induction tfs arbitrary: tot sc w)
  case Nil
  then have "sc' = sc" "tot' = tot" by simp_all
  then show ?case using adds_nil [of _ sc] by force
next
  case (Cons tf tfs)
  from Cons.prems obtain tot1 sc1 w1 where
    one: "pagination_loop fuel net ft sm tf None 0 tot sc w = Some (Inr (tot1, sc1, w1))"
    and more: "for_time_filters fuel net ft sm tfs tot1 sc1 w1 = Some (Inr (tot', sc', w'))"
    by (auto split: option.splits sum.splits)
  from pagination_loop_adds [OF one] obtain n1 where
    n1: "adds (post_date_in ft {start_date sc..end_date sc}) sc n1 sc1" "tot1 = tot + length n1"
    by blast
  from Cons.IH [OF more] obtain n2 where
    n2: "adds (post_date_in ft {start_date sc1..end_date sc1}) sc1 n2 sc'" "tot' = tot1 + length n2"
    by blast
  have "adds (post_date_in ft {start_date sc..end_date sc}) sc1 n2 sc'"
    using n2(1) adds_config [OF n1(1)] by simp
  with n1(1) have "adds (post_date_in ft {start_date sc..end_date sc}) sc (n1 @ n2) sc'"
    by (rule adds_trans)
  moreover have "tot' = tot + length (n1 @ n2)"
    using n1 n2 by simp
  ultimately show ?case by blast
qed

lemma scrape_old_reddit_pagination_adds:
  assumes "scrape_old_reddit_pagination fuel net ft sm sc w = Some (Inr (tot', sc', w'))"
  shows "\<exists>new. adds (post_date_in ft {start_date sc..end_date sc}) sc new sc'
           \<and> tot' = length new"
  using for_time_filters_adds [of fuel net ft sm "time_filters sm" 0 sc w tot' sc' w'] assms
  by (simp add: scrape_old_reddit_pagination_def)

lemma scrape_sorts_adds:
  assumes "scrape_sorts fuel net ft sms sc w = Some (Inr (sc', w'))"
  shows "\<exists>new. adds (post_date_in ft {start_date sc..end_date sc}) sc new sc'"
  using assms
proof (induction sms arbitrary: sc w)
  case Nil
  then have "sc' = sc" by simp
  then show ?case using adds_nil [of _ sc] by force
next
  case (Cons sm sms)
  from Cons.prems obtain tot1 sc1 w1 where
    one: "scrape_old_reddit_pagination fuel net ft sm sc w = Some (Inr (tot1, sc1, w1))"
    and more: "scrape_sorts fuel net ft sms sc1 w1 = Some (Inr (sc', w'))"
    by (auto split: option.splits sum.splits)
  from scrape_old_reddit_pagination_adds [OF one] obtain n1 where
    n1: "adds (post_date_in ft {start_date sc..end_date sc}) sc n1 sc1"
    by blast
  from Cons.IH [OF more] obtain n2 where
    n2: "adds (post_date_in ft {start_date sc1..end_date sc1}) sc1 n2 sc'"
    by blast
  have "adds (post_date_in ft {start_date sc..end_date sc}) sc1 n2 sc'"
    using n2 adds_config [OF n1] by simp
  with n1 have "adds (post_date_in ft {start_date sc..end_date sc}) sc (n1 @ n2) sc'"
    by (rule adds_trans)
  then show ?case by blast
qed

lemma scrape_adds:
  assumes "scrape fuel net ft sc w = Some (Inr (n, sc', w'))"
  shows "\<exists>new. adds (post_date_in ft {start_date sc..end_date sc}) sc new sc'
           \<and> n = length (posts sc) + length new"
proof -
  from assms obtain w1 where
    "scrape_sorts fuel net ft [''new'', ''hot'', ''top'', ''rising'', ''controversial''] sc w
       = Some (Inr (sc', w1))" and n: "n = length (posts sc')"
    by (auto simp: scrape_def split: option.splits sum.splits)
  from scrape_sorts_adds [OF this(1)] obtain new where
    a: "adds (post_date_in ft {start_date sc..end_date sc}) sc new sc'" by blast
  then have "posts sc' = posts sc @ new" by (simp add: adds_def)
  with a n show ?thesis by auto
qed

section \<open>The chunk driver only adds unseen posts of the window\<close>

lemma accept_child_chunk_adds:
  assumes "accept_child_chunk ft s e c (cnt, sc) = Inr (cnt', sc')"
  shows "\<exists>new. adds (post_date_in ft {s..<e}) sc new sc' \<and> cnt' = cnt + length new"
proof (cases "extract_post_data ft c")
  case None
  with assms have "sc' = sc" "cnt' = cnt"
    by (simp_all add: accept_child_chunk_def)
  then show ?thesis using adds_nil [of _ sc] by force
next
  case (Some p)
  show ?thesis
  proof (cases "post_id p \<notin> seen_ids sc \<and> post_date_in ft {s..<e} p")
    case True
    then obtain d where d: "post_date_of ft p = Inr d" "s \<le> d" "d < e"
      by (auto simp: post_date_in_def split: sum.splits)
    with Some True assms have "sc' = sc\<lparr>posts := posts sc @ [p],
        seen_ids := insert (post_id p) (seen_ids sc)\<rparr>" "cnt' = cnt + 1"
      by (simp_all add: accept_child_chunk_def)
    then have "adds (post_date_in ft {s..<e}) sc [p] sc' \<and> cnt' = cnt + length [p]"
      using True by (simp add: adds_def)
    then show ?thesis by blast
  next
    case False
    with Some assms have "sc' = sc" "cnt' = cnt"
      by (auto simp: accept_child_chunk_def post_date_in_def split: sum.splits if_splits)
    then show ?thesis using adds_nil [of _ sc] by force
  qed
qed

lemma accept_children_chunk_adds:
  assumes "accept_children_chunk ft s e cs (cnt, sc) = Inr (cnt', sc')"
  shows "\<exists>new. adds (post_date_in ft {s..<e}) sc new sc' \<and> cnt' = cnt + length new"
  using assms
proof (induction cs arbitrary: cnt sc)
  case Nil
  then have "sc' = sc" "cnt' = cnt" by simp_all
  then show ?case using adds_nil [of _ sc] by force
next
  case (Cons c cs)
  from Cons.prems obtain c1 s1 where
    one: "accept_child_chunk ft s e c (cnt, sc) = Inr (c1, s1)"
    and more: "accept_children_chunk ft s e cs (c1, s1) = Inr (cnt', sc')"
    by (auto split: sum.splits)
  from accept_child_chunk_adds [OF one] obtain n1 where
    n1: "adds (post_date_in ft {s..<e}) sc n1 s1" "c1 = cnt + length n1"
    by blast
  from Cons.IH [OF more] obtain n2 where
    n2: "adds (post_date_in ft {s..<e}) s1 n2 sc'" "cnt' = c1 + length n2"
    by blast
  from n1(1) n2(1) have "adds (post_date_in ft {s..<e}) sc (n1 @ n2) sc'"
    by (rule adds_trans)
  moreover have "cnt' = cnt + length (n1 @ n2)"
    using n1 n2 by simp
  ultimately show ?case by blast
qed

lemma scrape_chunk_loop_cases:
  assumes "scrape_chunk_loop (Suc fuel) net ft s e after cnt sc w = Some (Inr (cnt', sc', w'))"
  obtains
    (stop) "sc' = sc" "cnt' = cnt"
      "w' = snd (fetch_json net (SearchUrl s e (if truthy after then after else None)) w)"
  | (last) cs nxt where
      "fetch_json net (SearchUrl s e (if truthy after then after else None)) w
         = (Some (Listing cs nxt), w')"
      "accept_children_chunk ft s e cs (cnt, sc) = Inr (cnt', sc')"
  | (more) cs nxt cnt1 sc1 w1 where
      "fetch_json net (SearchUrl s e (if truthy after then after else None)) w
         = (Some (Listing cs nxt), w1)"
      "accept_children_chunk ft s e cs (cnt, sc) = Inr (cnt1, sc1)"
      "truthy nxt"
      "scrape_chunk_loop fuel net ft s e nxt cnt1 sc1 (delay sc1 w1) = Some (Inr (cnt', sc', w'))"
  using assms
  by (auto split: prod.splits option.splits json_doc.splits sum.splits if_splits)

lemma scrape_chunk_loop_adds:
  assumes "scrape_chunk_loop fuel net ft s e after cnt sc w = Some (Inr (cnt', sc', w'))"
  shows "\<exists>new. adds (post_date_in ft {s..<e}) sc new sc' \<and> cnt' = cnt + length new"
  using assms
proof (induction fuel arbitrary: after cnt sc w)
  case 0
  then show ?case by simp
next
  case (Suc fuel)
  from Suc.prems show ?case
  proof (cases rule: scrape_chunk_loop_cases)
    case stop
    then show ?thesis using adds_nil [of _ sc] by force
  next
    case (last cs nxt)
    from accept_children_chunk_adds [OF last(2)] show ?thesis by blast
  next
    case (more cs nxt cnt1 sc1 w1)
    from accept_children_chunk_adds [OF more(2)] obtain n1 where
      n1: "adds (post_date_in ft {s..<e}) sc n1 sc1" "cnt1 = cnt + length n1"
      by blast
    from Suc.IH [OF more(4)] obtain n2 where
      n2: "adds (post_date_in ft {s..<e}) sc1 n2 sc'" "cnt' = cnt1 + length n2"
      by blast
    from n1(1) n2(1) have "adds (post_date_in ft {s..<e}) sc (n1 @ n2) sc'"
      by (rule adds_trans)
    moreover have "cnt' = cnt + length (n1 @ n2)"
      using n1 n2 by simp
    ultimately show ?thesis by blast
  qed
qed

lemma scrape_chunk_adds:
  assumes "scrape_chunk fuel net ft s e sc w = Some (Inr (cnt', sc', w'))"
  shows "\<exists>new. adds (post_date_in ft {s..<e}) sc new sc' \<and> cnt' = length new"
  using scrape_chunk_loop_adds [of fuel net ft s e None 0 sc w cnt' sc' w'] assms
  by (simp add: scrape_chunk_def)

lemma chunked_loop_cases:
  assumes "chunked_loop (Suc fuel) net ft width cur tot sc w = Some (Inr (tot', sc', w'))"
  obtains
    (finished) "\<not> cur < end_date sc" "sc' = sc" "tot' = tot" "w' = w"
  | (round) cnt1 sc1 w1 where
      "cur < end_date sc"
      "scrape_chunk fuel net ft cur (min (cur + width) (end_date sc)) sc
         (emit (LogChunk cur (min (cur + width) (end_date sc))) w) = Some (Inr (cnt1, sc1, w1))"
      "chunked_loop fuel net ft width (min (cur + width) (end_date sc)) (tot + cnt1) sc1
         (delay sc1 w1) = Some (Inr (tot', sc', w'))"
  using assms
  by (auto split: prod.splits option.splits sum.splits if_splits)

lemma chunked_loop_adds:
  assumes "chunked_loop fuel net ft width cur tot sc w = Some (Inr (tot', sc', w'))"
    and "0 \<le> width" and "lo \<le> cur"
  shows "\<exists>new. adds (post_date_in ft {lo..<end_date sc}) sc new sc' \<and> tot' = tot + length new"
  using assms
proof (induction fuel arbitrary: cur tot sc w)
  case 0
  then show ?case by simp
next
  case (Suc fuel)
  from Suc.prems(1) show ?case
  proof (cases rule: chunked_loop_cases)
    case finished
    then show ?thesis using adds_nil [of _ sc] by force
  next
    case (round cnt1 sc1 w1)
    from scrape_chunk_adds [OF round(2)] obtain n1 where
      n1: "adds (post_date_in ft {cur..<min (cur + width) (end_date sc)}) sc n1 sc1"
        "cnt1 = length n1"
      by blast
    have a1: "adds (post_date_in ft {lo..<end_date sc}) sc n1 sc1"
      using n1(1)
    proof (rule adds_mono)
      fix p assume "post_date_in ft {cur..<min (cur + width) (end_date sc)} p"
      then show "post_date_in ft {lo..<end_date sc} p"
        using Suc.prems(3) by (auto simp: post_date_in_def split: sum.splits)
    qed
    have "lo \<le> min (cur + width) (end_date sc)"
      using Suc.prems(2,3) round(1) by simp
    from Suc.IH [OF round(3) Suc.prems(2) this] obtain n2 where
      n2: "adds (post_date_in ft {lo..<end_date sc1}) sc1 n2 sc'"
        "tot' = tot + cnt1 + length n2"
      by blast
    have "adds (post_date_in ft {lo..<end_date sc}) sc1 n2 sc'"
      using n2(1) adds_config [OF n1(1)] by simp
    with a1 have "adds (post_date_in ft {lo..<end_date sc}) sc (n1 @ n2) sc'"
      by (rule adds_trans)
    moreover have "tot' = tot + length (n1 @ n2)"
      using n1 n2 by simp
    ultimately show ?thesis by blast
  qed
qed

lemma scrape_search_api_chunked_adds:
  assumes "scrape_search_api_chunked fuel net ft sc w = Some (Inr (tot', sc', w'))"
  shows "\<exists>new. adds (post_date_in ft {start_date sc..<end_date sc}) sc new sc'
           \<and> tot' = length new"
  using chunked_loop_adds [of fuel net ft "timedelta_days chunk_days" "start_date sc" 0 sc w
      tot' sc' w' "start_date sc"] assms
  by (simp add: scrape_search_api_chunked_def timedelta_days_def chunk_days_def)

section \<open>Traces of the fetchers and of the chunk driver; windows that tile a range\<close>


lemma fetch_events_quiet:
  assumes "list_all is_fetch_event evs"
  shows "chunk_log evs = []" "\<not> output_written evs" "\<not> list_ex is_random_sleep evs"
proof -
  show "chunk_log evs = []"
    using assms by (induction evs rule: chunk_log.induct) simp_all
  have "\<not> is_file_write e \<and> \<not> is_random_sleep e" if "is_fetch_event e" for e
    using that by (cases e) simp_all
  with assms show "\<not> output_written evs" "\<not> list_ex is_random_sleep evs"
    by (auto simp: output_written_def list_all_iff list_ex_iff)
qed

lemma fetch_attempts_trace:
  "\<exists>evs. trace (snd (fetch_attempts net u as w)) = trace w @ evs \<and> list_all is_fetch_event evs"
proof (induction as arbitrary: w)
  case Nil
  then show ?case by simp
next
  case (Cons a as)
  have rec: "\<exists>evs. trace (snd (fetch_attempts net u as (sleep d (issue u w)))) = trace w @ evs
         \<and> list_all is_fetch_event evs" for d
  proof -
    from Cons.IH [of "sleep d (issue u w)"] obtain evs where
      "trace (snd (fetch_attempts net u as (sleep d (issue u w)))) = trace w @ [Get u, Sleep d] @ evs"
      "list_all is_fetch_event evs" by auto
    then have "trace (snd (fetch_attempts net u as (sleep d (issue u w)))) = trace w @ ([Get u, Sleep d] @ evs)
       \<and> list_all is_fetch_event ([Get u, Sleep d] @ evs)" by simp
    then show ?thesis by blast
  qed
  have one: "\<exists>evs. trace (issue u w) = trace w @ evs \<and> list_all is_fetch_event evs"
    by simp
  show ?case
    using fetch_attempts_step [of net u a as w] rec one
    by (auto simp del: fetch_attempts.simps)
qed

lemma fetch_attempts_first:
  "\<exists>evs. trace (snd (fetch_attempts net u (a # as) w)) = trace w @ Get u # evs
         \<and> list_all is_fetch_event evs"
proof -
  have rec: "\<exists>evs. trace (snd (fetch_attempts net u as (sleep d (issue u w)))) = trace w @ Get u # evs
         \<and> list_all is_fetch_event evs" for d
  proof -
    from fetch_attempts_trace [of net u as "sleep d (issue u w)"] obtain evs where
      "trace (snd (fetch_attempts net u as (sleep d (issue u w)))) = trace w @ [Get u, Sleep d] @ evs"
      "list_all is_fetch_event evs" by auto
    then have "trace (snd (fetch_attempts net u as (sleep d (issue u w)))) = trace w @ Get u # (Sleep d # evs)
       \<and> list_all is_fetch_event (Sleep d # evs)" by simp
    then show ?thesis by blast
  qed
  have one: "\<exists>evs. trace (issue u w) = trace w @ Get u # evs \<and> list_all is_fetch_event evs"
    by simp
  show ?thesis
    using fetch_attempts_step [of net u a as w] rec one
    by (auto simp del: fetch_attempts.simps)
qed

lemma fetch_json_first:
  "\<exists>evs. trace (snd (fetch_json net u w)) = trace w @ Get u # evs \<and> list_all is_fetch_event evs"
proof -
  obtain a as where "[0..<max_retries_json] = a # as"
    by (simp add: max_retries_json_def upt_rec)
  then have "fetch_json net u w = fetch_attempts net u (a # as) w"
    by (simp only: fetch_json_def)
  then show ?thesis
    using fetch_attempts_first [of net u a as w] by (simp only:)
qed


lemma trace_delay [simp]:
  "trace (delay sc w) = trace w @ [RandomSleep (delay_min sc) (delay_max sc)]"
  by (simp add: delay_def emit_def)

lemma trace_save_checkpoint [simp]:
  "trace (save_checkpoint sc w) = trace w @ [WriteCheckpoint (seen_ids sc) (length (posts sc))]"
  by (simp add: save_checkpoint_def emit_def)

lemma trace_emit [simp]: "trace (emit e w) = trace w @ [e]"
  by (simp add: emit_def)

lemma output_written_append [simp]:
  "output_written (xs @ ys) \<longleftrightarrow> output_written xs \<or> output_written ys"
  by (auto simp: output_written_def list_ex_iff)






section \<open>More fuel does not change a result; the chunk loop ends\<close>





section \<open>A fresh object; the trace of the pagination driver\<close>

lemma load_checkpoint_frame:
  assumes "load_checkpoint f sc = (d, sc')"
  shows "sc' = sc\<lparr>seen_ids :=
           (case f of
              Readable (Object (SeenList ids)) \<Rightarrow> set ids
            | Readable (Object SeenMissing) \<Rightarrow> {}
            | _ \<Rightarrow> seen_ids sc)\<rparr>"
  using assms
  by (cases "(f, sc)" rule: load_checkpoint_try.cases) (auto simp: load_checkpoint_def)

lemma init_fresh:
  "posts (init f sd ed fmt file dmin dmax) = []"
  "seen_ids (init f sd ed fmt file dmin dmax)
     = (case f of Readable (Object (SeenList ids)) \<Rightarrow> set ids | _ \<Rightarrow> {})"
  "start_date (init f sd ed fmt file dmin dmax) = sd"
  "end_date (init f sd ed fmt file dmin dmax) = ed"
proof -
  define sc where "sc = \<lparr>start_date = sd, end_date = ed, output_format = fmt,
      output_file = file, delay_min = dmin, delay_max = dmax, posts = [], seen_ids = {},
      checkpoint_data = DefaultCheckpoint\<rparr>"
  obtain d sc' where l: "load_checkpoint f sc = (d, sc')" by fastforce
  then have i: "init f sd ed fmt file dmin dmax = sc'\<lparr>checkpoint_data := d\<rparr>"
    by (simp add: init_def sc_def)
  note fr = load_checkpoint_frame [OF l]
  show "posts (init f sd ed fmt file dmin dmax) = []"
    using i fr by (simp add: sc_def)
  show "start_date (init f sd ed fmt file dmin dmax) = sd"
    using i fr by (simp add: sc_def)
  show "end_date (init f sd ed fmt file dmin dmax) = ed"
    using i fr by (simp add: sc_def)
  show "seen_ids (init f sd ed fmt file dmin dmax)
     = (case f of Readable (Object (SeenList ids)) \<Rightarrow> set ids | _ \<Rightarrow> {})"
    using i fr
    by (simp add: sc_def split: ckfile.splits ck_content.splits seen_field.splits)
qed

lemma output_written_Cons [simp]:
  "output_written (e # es) \<longleftrightarrow> is_file_write e \<or> output_written es"
  by (simp add: output_written_def)

lemma output_written_Nil [simp]: "\<not> output_written []"
  by (simp add: output_written_def)

lemma pagination_loop_trace:
  assumes "pagination_loop fuel net ft sm tf after cnt tot sc w = Some (Inr (tot', sc', w'))"
  shows "\<exists>evs. trace w' = trace w @ Get (ListingUrl sm (if truthy after then after else None)
                                      (if truthy tf then tf else None)) # evs
               \<and> \<not> output_written evs"
  using assms
proof (induction fuel arbitrary: after cnt tot sc w)
  case 0
  then show ?case by simp
next
  case (Suc fuel)
  have first: "\<exists>evs. trace w1 = trace w @ Get u # evs \<and> \<not> output_written evs"
    if "fetch_json net u w = (r, w1)" for r w1 u
  proof -
    from fetch_json_first [of net u w] that obtain evs where
      "trace w1 = trace w @ Get u # evs" "list_all is_fetch_event evs" by auto
    with fetch_events_quiet(2) show ?thesis by blast
  qed
  from Suc.prems show ?case
  proof (cases rule: pagination_loop_cases)
    case stop
    from first [OF surjective_pairing] stop(3) show ?thesis by blast
  next
    case (last cs nxt cnt1)
    from first [OF last(1)] show ?thesis .
  next
    case (more cs nxt cnt1 tot1 sc1 w1)
    define u where "u = ListingUrl sm (if truthy after then after else None)
                                      (if truthy tf then tf else None)"
    from first [OF more(1)] obtain e1 where
      e1: "trace w1 = trace w @ Get u # e1" "\<not> output_written e1"
      unfolding u_def by blast
    from Suc.IH [OF more(4)] obtain e2 where
      e2: "trace w' = trace (delay sc1 (if 0 < cnt1 \<and> cnt1 mod 100 = 0
              then save_checkpoint sc1 w1 else w1))
            @ Get (ListingUrl sm (if truthy nxt then nxt else None)
                 (if truthy tf then tf else None)) # e2"
        "\<not> output_written e2" by blast
    define mid where "mid = (if 0 < cnt1 \<and> cnt1 mod 100 = 0
        then [WriteCheckpoint (seen_ids sc1) (length (posts sc1))] else [])
      @ [RandomSleep (delay_min sc1) (delay_max sc1),
         Get (ListingUrl sm (if truthy nxt then nxt else None) (if truthy tf then tf else None))]"
    have "trace w' = trace w @ Get u # (e1 @ mid @ e2)"
      using e1(1) e2(1) by (simp add: mid_def)
    moreover have "\<not> output_written mid"
      by (simp add: mid_def)
    then have "\<not> output_written (e1 @ mid @ e2)"
      using e1(2) e2(2) by simp
    ultimately show ?thesis unfolding u_def by blast
  qed
qed

lemma for_time_filters_trace:
  assumes "for_time_filters fuel net ft sm tfs tot sc w = Some (Inr (tot', sc', w'))"
  shows "\<exists>evs. trace w' = trace w @ evs \<and> \<not> output_written evs"
  using assms
proof (induction tfs arbitrary: tot sc w)
  case Nil
  then have "trace w' = trace w @ [] \<and> \<not> output_written []"
    by simp
  then show ?case by blast
next
  case (Cons tf tfs)
  from Cons.prems obtain tot1 sc1 w1 where
    one: "pagination_loop fuel net ft sm tf None 0 tot sc w = Some (Inr (tot1, sc1, w1))"
    and more: "for_time_filters fuel net ft sm tfs tot1 sc1 w1 = Some (Inr (tot', sc', w'))"
    by (auto split: option.splits sum.splits)
  from pagination_loop_trace [OF one] obtain e0 where
    e0: "trace w1 = trace w @ Get (ListingUrl sm None (if truthy tf then tf else None)) # e0"
      "\<not> output_written e0"
    by (auto simp: truthy_def)
  define e1 where "e1 = Get (ListingUrl sm None (if truthy tf then tf else None)) # e0"
  have e1: "trace w1 = trace w @ e1" "\<not> output_written e1"
    using e0 by (simp_all add: e1_def)
  from Cons.IH [OF more] obtain e2 where
    e2: "trace w' = trace w1 @ e2" "\<not> output_written e2" by blast
  have "trace w' = trace w @ (e1 @ e2) \<and> \<not> output_written (e1 @ e2)"
    using e1 e2 by simp
  then show ?case by blast
qed

lemma scrape_sorts_trace:
  assumes "scrape_sorts fuel net ft sms sc w = Some (Inr (sc', w'))"
  shows "\<exists>evs. trace w' = trace w @ evs \<and> \<not> output_written evs"
  using assms
proof (induction sms arbitrary: sc w)
  case Nil
  then have "trace w' = trace w @ [] \<and> \<not> output_written []"
    by simp
  then show ?case by blast
next
  case (Cons sm sms)
  from Cons.prems obtain tot1 sc1 w1 where
    one: "for_time_filters fuel net ft sm (time_filters sm) 0 sc w = Some (Inr (tot1, sc1, w1))"
    and more: "scrape_sorts fuel net ft sms sc1 w1 = Some (Inr (sc', w'))"
    by (auto simp: scrape_old_reddit_pagination_def split: option.splits sum.splits)
  from for_time_filters_trace [OF one] obtain e1 where
    e1: "trace w1 = trace w @ e1" "\<not> output_written e1" by blast
  from Cons.IH [OF more] obtain e2 where
    e2: "trace w' = trace w1 @ e2" "\<not> output_written e2" by blast
  have "trace w' = trace w @ (e1 @ e2) \<and> \<not> output_written (e1 @ e2)"
    using e1 e2 by simp
  then show ?case by blast
qed

lemma scrape_trace:
  assumes "scrape fuel net ft sc w = Some (Inr (n, sc', w'))"
  shows "\<exists>evs. trace w' = trace w @ evs \<and> \<not> output_written evs"
proof -
  from assms obtain w1 where
    s: "scrape_sorts fuel net ft [''new'', ''hot'', ''top'', ''rising'', ''controversial''] sc w
       = Some (Inr (sc', w1))" and w': "w' = save_checkpoint sc' w1"
    by (auto simp: scrape_def split: option.splits sum.splits)
  from scrape_sorts_trace [OF s] obtain e1 where
    e1: "trace w1 = trace w @ e1" "\<not> output_written e1" by blast
  have "trace w' = trace w @ (e1 @ [WriteCheckpoint (seen_ids sc') (length (posts sc'))])
     \<and> \<not> output_written (e1 @ [WriteCheckpoint (seen_ids sc') (length (posts sc'))])"
    using e1 w' by simp
  then show ?thesis by blast
qed

section \<open>Evaluating the concrete inputs\<close>

lemma sc_example_eq:
  "sc_example = \<lparr>start_date = date_2024_01_01, end_date = date_2024_01_15,
      output_format = ''json'', output_file = ''out.json'', delay_min = 2, delay_max = 5,
      posts = [], seen_ids = {}, checkpoint_data = DefaultCheckpoint\<rparr>"
  by (simp add: sc_example_def init_def load_checkpoint_def)

lemma fetch_json_forbidden:
  "fetch_json net_forbidden u w = (None, issue u w)"
  by (simp add: fetch_json_def max_retries_json_def upt_rec net_forbidden_def)

lemma fetch_json_two_pages:
  "fetch_json net_two_pages u w =
     (if tick w = 0 then (Some (Listing [child_a, child_b, child_a] (Some ''t1'')), issue u w)
      else if tick w = 1 then (Some (Listing [child_c] None), issue u w)
      else (None, issue u w))"
  by (simp add: fetch_json_def max_retries_json_def upt_rec net_two_pages_def)

lemma sc_resumed_eq:
  "sc_resumed = \<lparr>start_date = date_2024_01_01, end_date = date_2024_01_15,
      output_format = ''json'', output_file = ''out.json'', delay_min = 2, delay_max = 5,
      posts = [], seen_ids = {Some ''c''}, checkpoint_data = Loaded (SeenList [Some ''c''])\<rparr>"
  by (simp add: sc_resumed_def init_def load_checkpoint_def)

lemmas example_defs =
  accept_child_def accept_child_chunk_def extract_post_data_def post_date_of_def
  fromtimestamp_utc_def child_a_def child_b_def child_c_def post_of_a_def truthy_def
  delay_def save_checkpoint_def emit_def issue_def world0_def time_filters_def
  date_2024_01_01_def date_2024_01_08_def date_2024_01_15_def timedelta_days_def

lemma fetch_html_forbidden:
  "fetch_html net_forbidden u 0 w = (None, issue u (random_delay w))"
  by (subst fetch_html.simps) (simp add: net_forbidden_def)

lemma scrape_forbidden:
  "scrape 2 net_forbidden fromtimestamp_utc sc_example world0
     = Some (Inr (0, sc_example, \<lparr>tick = 9, trace = trace_forbidden_run\<rparr>))"
  by (simp add: scrape_def scrape_old_reddit_pagination_def numeral_2_eq_2
      fetch_json_forbidden sc_example_eq trace_forbidden_run_def example_defs)

section \<open>HTTP 403 is terminal\<close>

text \<open>
  Claim C3. Whenever an attempt of either fetcher receives HTTP 403, at any position of
  the retry sequence, the fetcher returns \<open>None\<close> right after that request: the world
  it leaves holds this one request (preceded, in \<open>fetch_html\<close>, by its random delay)
  and nothing after it, so no sleep and no further attempt follow. The result is a
  returned value; nothing is raised.
\<close>

theorem forbidden_is_terminal:
  fixes net :: "'a network"
  shows "(net (tick w) u = Response 403 hdr body \<longrightarrow>
            fetch_attempts net u (attempt # rest) w =
              (None, w\<lparr>tick := Suc (tick w), trace := trace w @ [Get u]\<rparr>))
       \<and> (net (tick w) u = Response 403 hdr body \<longrightarrow>
            fetch_html net u retries w =
              (None, w\<lparr>tick := Suc (tick w), trace := trace w @ [RandomSleep 2 5, Get u]\<rparr>))"
  by (simp add: fetch_html.simps issue_def emit_def random_delay_def base_delay_def)

theorem forbidden_is_terminal_witness:
  "fetch_json (net_limited_then_forbidden :: string network) (PageUrl ''p'') world0 =
     (None, \<lparr>tick = 2, trace = [Get (PageUrl ''p''), Sleep 60, Get (PageUrl ''p'')]\<rparr>)
   \<and> fetch_html (net_forbidden :: string network) (PageUrl ''p'') 0 world0 =
     (None, \<lparr>tick = 1, trace = [RandomSleep 2 5, Get (PageUrl ''p'')]\<rparr>)"
  using forbidden_is_terminal [of "net_limited_then_forbidden :: string network"
      "\<lparr>tick = 1, trace = [Get (PageUrl ''p''), Sleep 60]\<rparr>" "PageUrl ''p''" None BodyError 1 "[2]" 0]
    forbidden_is_terminal [of "net_forbidden :: string network" world0 "PageUrl ''p''" None BodyError 0 "[]" 0]
  by (simp add: fetch_json_def max_retries_json_def upt_rec net_limited_then_forbidden_def
      net_forbidden_def world0_def issue_def emit_def sleep_def)

section \<open>HTTP 429: waiting and retrying\<close>




section \<open>Random delays before requests\<close>

text \<open>
  Claim C6, as amended. \<open>fetch_html\<close> sleeps a random delay drawn from the configured
  range \<open>base_delay = (2, 5)\<close> right before every request it makes, the retries
  included. \<open>_fetch_json\<close> applies no random delay at all: between its attempts it
  sleeps only the fixed durations of its error branches.
\<close>

theorem delay_before_attempts:
  fixes net :: "'a network"
  shows "(\<exists>evs. trace (snd (fetch_html net u 0 w)) = trace w @ evs \<and> delay_before_each_get 2 5 evs)
       \<and> (\<exists>evs. trace (snd (fetch_json net u w)) = trace w @ evs \<and> \<not> list_ex is_random_sleep evs)"
  using fetch_html_delays_aux [of 0 3 net u w] fetch_attempts_no_random_sleep [of net u "[0..<max_retries_json]" w]
  by (simp add: max_retries_def fetch_json_def)

theorem delay_before_attempts_witness:
  "trace (snd (fetch_html net_limited_once (PageUrl ''p'') 0 world0)) =
     [RandomSleep 2 5, Get (PageUrl ''p''), Sleep 10, RandomSleep 2 5, Get (PageUrl ''p'')]
   \<and> delay_before_each_get 2 5
        [RandomSleep 2 5, Get (PageUrl ''p''), Sleep 10, RandomSleep 2 5, Get (PageUrl ''p'')]"
  using delay_before_attempts [of net_limited_once "PageUrl ''p''" world0]
  by (simp add: fetch_html.simps net_limited_once_def world0_def max_retries_def)

text \<open>
  The claim as stated fails for \<open>_fetch_json\<close>: neither its first request nor its
  retry after a 429 is preceded by a random delay.
\<close>

theorem no_delay_before_fetch_json_counterexample:
  "trace (snd (fetch_json net_limited_once (PageUrl ''p'') world0)) =
     [Get (PageUrl ''p''), Sleep 60, Get (PageUrl ''p'')]
   \<and> \<not> delay_before_each_get 2 5
          (trace (snd (fetch_json net_limited_once (PageUrl ''p'') world0)))"
  by (simp add: fetch_json_def max_retries_json_def upt_rec net_limited_once_def world0_def)

section \<open>Loading a checkpoint never fails\<close>



section \<open>The output is written newest first\<close>







section \<open>The chunk windows partition the date range\<close>



section \<open>No identifier is collected twice\<close>

text \<open>
  Claim C4. For a scraper as \<open>__init__\<close> builds it (empty collection, \<open>seen_ids\<close>
  seeded from the checkpoint's \<open>seen_ids\<close> when one is loaded) and any run of \<open>scrape\<close>
  or of the chunk driver that returns: no two posts of the final collection share an
  identifier, no post of the collection has an identifier that was in the loaded
  \<open>seen_ids\<close>, and \<open>seen_ids\<close> has grown by exactly the identifiers of the collected
  posts.
\<close>

theorem no_duplicate_identifiers:
  assumes "sc0 = init f sd ed fmt file dmin dmax"
    and "scrape fuel net ft sc0 w = Some (Inr (n, sc', w'))
         \<or> scrape_search_api_chunked fuel net ft sc0 w = Some (Inr (n, sc', w'))"
  shows "distinct (map post_id (posts sc'))
       \<and> set (map post_id (posts sc')) \<inter> seen_ids sc0 = {}
       \<and> seen_ids sc' = seen_ids sc0 \<union> set (map post_id (posts sc'))
       \<and> seen_ids sc0 = (case f of Readable (Object (SeenList ids)) \<Rightarrow> set ids | _ \<Rightarrow> {})"
proof -
  have fresh: "posts sc0 = []"
    and seen0: "seen_ids sc0 = (case f of Readable (Object (SeenList ids)) \<Rightarrow> set ids | _ \<Rightarrow> {})"
    unfolding assms(1) by (rule init_fresh)+
  from assms(2) obtain P new where "adds P sc0 new sc'"
    using scrape_adds scrape_search_api_chunked_adds by blast
  then have "posts sc' = posts sc0 @ new"
    and "seen_ids sc' = seen_ids sc0 \<union> set (map post_id new)"
    and "distinct (map post_id new)"
    and "\<forall>p \<in> set new. post_id p \<notin> seen_ids sc0"
    by (simp_all add: adds_def)
  with fresh seen0 show ?thesis by auto
qed

theorem no_duplicate_identifiers_witness:
  "scrape 3 net_two_pages fromtimestamp_utc sc_resumed world0 =
     Some (Inr (1, sc_resumed\<lparr>posts := [post_of_a], seen_ids := {Some ''a'', Some ''c''}\<rparr>,
       \<lparr>tick = 10,
        trace = [Get (ListingUrl ''new'' None None), RandomSleep 2 5,
                 Get (ListingUrl ''new'' (Some ''t1'') None),
                 Get (ListingUrl ''hot'' None None),
                 Get (ListingUrl ''top'' None (Some ''month'')),
                 Get (ListingUrl ''top'' None (Some ''year'')),
                 Get (ListingUrl ''top'' None (Some ''all'')),
                 Get (ListingUrl ''rising'' None None),
                 Get (ListingUrl ''controversial'' None (Some ''month'')),
                 Get (ListingUrl ''controversial'' None (Some ''year'')),
                 Get (ListingUrl ''controversial'' None (Some ''all'')),
                 WriteCheckpoint {Some ''a'', Some ''c''} 1]\<rparr>))
   \<and> seen_ids sc_resumed = {Some ''c''}"
  using no_duplicate_identifiers [of sc_resumed "Readable (Object (SeenList [Some ''c'']))"
      date_2024_01_01 date_2024_01_15 "''json''" "''out.json''" 2 5 3 net_two_pages
      fromtimestamp_utc world0 1
      "sc_resumed\<lparr>posts := [post_of_a], seen_ids := {Some ''a'', Some ''c''}\<rparr>"]
  by (simp add: scrape_def scrape_old_reddit_pagination_def numeral_3_eq_3
      fetch_json_two_pages sc_resumed_eq example_defs insert_commute)

section \<open>Accepted posts lie in the date range\<close>






section \<open>Time sub-windows share the seen set\<close>

lemma pagination_loop_window:
  assumes "pagination_loop fuel net ft sm (Some tf) None 0 tot sc w = Some (Inr (tot', sc', w'))"
    and "tf \<noteq> []"
  shows "\<exists>new evs. posts sc' = posts sc @ new
           \<and> seen_ids sc' = seen_ids sc \<union> set (map post_id new)
           \<and> tot' = tot + length new
           \<and> trace w' = trace w @ Get (ListingUrl sm None (Some tf)) # evs"
proof -
  from pagination_loop_adds [OF assms(1)] obtain new where
    "adds (post_date_in ft {start_date sc..end_date sc}) sc new sc'" "tot' = tot + length new"
    by blast
  then have "posts sc' = posts sc @ new" "seen_ids sc' = seen_ids sc \<union> set (map post_id new)"
    "tot' = tot + length new"
    by (simp_all add: adds_def)
  moreover from pagination_loop_trace [OF assms(1)] assms(2) obtain evs where
    "trace w' = trace w @ Get (ListingUrl sm None (Some tf)) # evs"
    by (auto simp: truthy_def)
  ultimately show ?thesis by blast
qed

text \<open>
  Claim C7. For the sort modes \<open>top\<close> and \<open>controversial\<close> a returning run of the
  pagination driver is three runs of the whole pagination loop, for the time filters
  \<open>month\<close>, \<open>year\<close> and \<open>all\<close> in this order. Each starts with no cursor (its first
  request carries no \<open>after\<close>) and with the local counter at 0, on the object exactly as
  the run before left it: the collection and \<open>seen_ids\<close> of one window are those the next
  one starts from, each window only appends posts and adds their identifiers, and the
  total returned is the number of posts the three windows added.
\<close>

theorem time_windows_share_seen_set:
  assumes "sm = ''top'' \<or> sm = ''controversial''"
    and "scrape_old_reddit_pagination fuel net ft sm sc w = Some (Inr (tot, sc', w'))"
  shows "\<exists>t1 sc1 w1 t2 sc2 w2 n1 n2 n3 e1 e2 e3.
       pagination_loop fuel net ft sm (Some ''month'') None 0 0 sc w = Some (Inr (t1, sc1, w1))
     \<and> pagination_loop fuel net ft sm (Some ''year'') None 0 t1 sc1 w1 = Some (Inr (t2, sc2, w2))
     \<and> pagination_loop fuel net ft sm (Some ''all'') None 0 t2 sc2 w2 = Some (Inr (tot, sc', w'))
     \<and> posts sc1 = posts sc @ n1 \<and> posts sc2 = posts sc1 @ n2 \<and> posts sc' = posts sc2 @ n3
     \<and> seen_ids sc1 = seen_ids sc \<union> set (map post_id n1)
     \<and> seen_ids sc2 = seen_ids sc1 \<union> set (map post_id n2)
     \<and> seen_ids sc' = seen_ids sc2 \<union> set (map post_id n3)
     \<and> tot = length n1 + length n2 + length n3
     \<and> trace w1 = trace w @ Get (ListingUrl sm None (Some ''month'')) # e1
     \<and> trace w2 = trace w1 @ Get (ListingUrl sm None (Some ''year'')) # e2
     \<and> trace w' = trace w2 @ Get (ListingUrl sm None (Some ''all'')) # e3"
proof -
  from assms(1) have tfs: "time_filters sm = [Some ''month'', Some ''year'', Some ''all'']"
    by (auto simp: time_filters_def)
  from assms(2) obtain t1 sc1 w1 t2 sc2 w2 where
    r1: "pagination_loop fuel net ft sm (Some ''month'') None 0 0 sc w = Some (Inr (t1, sc1, w1))"
    and r2: "pagination_loop fuel net ft sm (Some ''year'') None 0 t1 sc1 w1 = Some (Inr (t2, sc2, w2))"
    and r3: "pagination_loop fuel net ft sm (Some ''all'') None 0 t2 sc2 w2 = Some (Inr (tot, sc', w'))"
    unfolding scrape_old_reddit_pagination_def tfs
    by (auto split: option.splits sum.splits)
  from pagination_loop_window [OF r1] obtain n1 e1 where
    a1: "posts sc1 = posts sc @ n1" "seen_ids sc1 = seen_ids sc \<union> set (map post_id n1)"
      "t1 = 0 + length n1" "trace w1 = trace w @ Get (ListingUrl sm None (Some ''month'')) # e1"
    by auto
  from pagination_loop_window [OF r2] obtain n2 e2 where
    a2: "posts sc2 = posts sc1 @ n2" "seen_ids sc2 = seen_ids sc1 \<union> set (map post_id n2)"
      "t2 = t1 + length n2" "trace w2 = trace w1 @ Get (ListingUrl sm None (Some ''year'')) # e2"
    by auto
  from pagination_loop_window [OF r3] obtain n3 e3 where
    a3: "posts sc' = posts sc2 @ n3" "seen_ids sc' = seen_ids sc2 \<union> set (map post_id n3)"
      "tot = t2 + length n3" "trace w' = trace w2 @ Get (ListingUrl sm None (Some ''all'')) # e3"
    by auto
  have "tot = length n1 + length n2 + length n3"
    using a1(3) a2(3) a3(3) by simp
  with r1 r2 r3 a1(1,2,4) a2(1,2,4) a3(1,2,4) show ?thesis by blast
qed

theorem time_windows_share_seen_set_witness:
  "scrape_old_reddit_pagination 3 net_two_pages fromtimestamp_utc ''top'' sc_resumed world0 =
     Some (Inr (1, sc_resumed\<lparr>posts := [post_of_a], seen_ids := {Some ''a'', Some ''c''}\<rparr>,
       \<lparr>tick = 4,
        trace = [Get (ListingUrl ''top'' None (Some ''month'')), RandomSleep 2 5,
                 Get (ListingUrl ''top'' (Some ''t1'') (Some ''month'')),
                 Get (ListingUrl ''top'' None (Some ''year'')),
                 Get (ListingUrl ''top'' None (Some ''all''))]\<rparr>))
   \<and> pagination_loop 3 net_two_pages fromtimestamp_utc ''top'' (Some ''month'') None 0 0
        sc_resumed world0 =
     Some (Inr (1, sc_resumed\<lparr>posts := [post_of_a], seen_ids := {Some ''a'', Some ''c''}\<rparr>,
       \<lparr>tick = 2,
        trace = [Get (ListingUrl ''top'' None (Some ''month'')), RandomSleep 2 5,
                 Get (ListingUrl ''top'' (Some ''t1'') (Some ''month''))]\<rparr>))"
  using time_windows_share_seen_set [where sm = "''top''" and fuel = 3 and net = net_two_pages
      and ft = fromtimestamp_utc and sc = sc_resumed and w = world0 and tot = 1
      and sc' = "sc_resumed\<lparr>posts := [post_of_a], seen_ids := {Some ''a'', Some ''c''}\<rparr>"]
  by (simp add: scrape_old_reddit_pagination_def numeral_3_eq_3
      fetch_json_two_pages sc_resumed_eq example_defs insert_commute)

section \<open>Persisting an empty result\<close>

lemma stats_of_empty:
  "deals (stats_of ds) = ds"
  "deals (stats_of ds) = [] \<Longrightarrow> stats_of ds =
     \<lparr>total_deals = 0, by_market_a101 = 0, by_market_bim = 0, by_market_sok = 0, deals = []\<rparr>"
  by (simp_all add: stats_of_def)

lemma scrape_all_markets_stats:
  "\<exists>ds. fst (scrape_all_markets mnet cards w) = stats_of ds"
  by (auto simp: scrape_all_markets_def split: prod.splits)

text \<open>
  Claim C9, as amended. \<open>market_scraper\<close> always persists its result: the last thing
  \<open>main\<close> does is to write the result document to the output file, and with no deal
  that document is the empty but valid one (all counts 0, no deals).
  \<open>reddit_scraper\<close> persists nothing when the collection is empty: \<open>save_output\<close>
  returns at once, and a run of \<open>main\<close> that ends with an empty collection has written
  no output file.
\<close>

theorem empty_result_persistence:
  "(posts sc = [] \<longrightarrow> save_output sc w = Inr (sc, w))
 \<and> (reddit_main fuel net ft f sd ed fmt file dmin dmax w = Some (Inr (sc', w')) \<and> posts sc' = []
      \<longrightarrow> (\<exists>evs. trace w' = trace w @ evs \<and> \<not> output_written evs))
 \<and> last (trace (snd (market_main mnet cards w)))
      = WriteFile output_file_market (MarketJson (fst (market_main mnet cards w)))
 \<and> (deals (fst (market_main mnet cards w)) = [] \<longrightarrow>
      fst (market_main mnet cards w) =
        \<lparr>total_deals = 0, by_market_a101 = 0, by_market_bim = 0, by_market_sok = 0, deals = []\<rparr>)"
proof (intro conjI impI)
  assume "posts sc = []"
  then show "save_output sc w = Inr (sc, w)"
    by (simp add: save_output_def)
next
  assume a: "reddit_main fuel net ft f sd ed fmt file dmin dmax w = Some (Inr (sc', w')) \<and> posts sc' = []"
  then obtain n sc1 w1 where
    s: "scrape fuel net ft (init f sd ed fmt file dmin dmax) w = Some (Inr (n, sc1, w1))"
    and o: "save_output sc1 w1 = Inr (sc', w')"
    by (auto simp: reddit_main_def split: option.splits sum.splits)
  have "posts sc1 = []"
  proof (rule ccontr)
    assume ne: "posts sc1 \<noteq> []"
    with o obtain ps where "sort_posts (posts sc1) = Inr ps" "posts sc' = ps"
      by (auto simp: save_output_def split: sum.splits if_splits)
    moreover from this(1) have "length ps = length (posts sc1)"
      by (auto simp: sort_posts_def split: if_splits)
    ultimately show False using a ne by simp
  qed
  with o have "w' = w1" by (simp add: save_output_def)
  with scrape_trace [OF s] show "\<exists>evs. trace w' = trace w @ evs \<and> \<not> output_written evs"
    by simp
next
  show "last (trace (snd (market_main mnet cards w)))
      = WriteFile output_file_market (MarketJson (fst (market_main mnet cards w)))"
    by (simp add: market_main_def save_results_def split: prod.splits)
next
  assume "deals (fst (market_main mnet cards w)) = []"
  moreover have "fst (market_main mnet cards w) = fst (scrape_all_markets mnet cards w)"
    by (simp add: market_main_def split: prod.splits)
  moreover obtain ds where "fst (scrape_all_markets mnet cards w) = stats_of ds"
    using scrape_all_markets_stats by blast
  ultimately show "fst (market_main mnet cards w) =
        \<lparr>total_deals = 0, by_market_a101 = 0, by_market_bim = 0, by_market_sok = 0, deals = []\<rparr>"
    using stats_of_empty(2) [of ds] by simp
qed

theorem empty_result_persistence_witness:
  "market_main net_forbidden no_cards world0 =
     (\<lparr>total_deals = 0, by_market_a101 = 0, by_market_bim = 0, by_market_sok = 0, deals = []\<rparr>,
      \<lparr>tick = 6,
       trace = [RandomSleep 2 5, Get (PageUrl ''https://aktuel-urunler.com/a101-aktuel-urunler/''),
                RandomSleep 2 5, Get (PageUrl ''https://aktuel-urunler.com/bim-aktuel-urunler/''),
                RandomSleep 2 5, Get (PageUrl ''https://aktuel-urunler.com/sok-aktuel-urunler/''),
                RandomSleep 2 5,
                Get (PageUrl ''https://kurumsal.sokmarket.com.tr/haftanin-firsatlari/firsatlar''),
                RandomSleep 2 5,
                Get (PageUrl ''https://www.bim.com.tr/Categories/100/aktuel-urunler.aspx''),
                RandomSleep 2 5, Get (PageUrl ''https://www.a101.com.tr/afisler''),
                WriteFile ''market_deals.json''
                  (MarketJson \<lparr>total_deals = 0, by_market_a101 = 0, by_market_bim = 0,
                                by_market_sok = 0, deals = []\<rparr>)]\<rparr>)
   \<and> save_output sc_example world0 = Inr (sc_example, world0)"
  using empty_result_persistence [where mnet = net_forbidden and cards = no_cards and w = world0
      and sc = sc_example]
  by (simp add: market_main_def scrape_all_markets_def scrape_aktuel_urunler_def markets_def
      scrape_sok_direct_def scrape_bim_direct_def scrape_a101_direct_def fetch_html_forbidden
      stats_of_def save_results_def output_file_market_def aggregator_url_def direct_url_sok_def
      direct_url_bim_def direct_url_a101_def world0_def save_output_def sc_example_eq
      emit_def issue_def random_delay_def base_delay_def)

text \<open>
  The claim as stated fails for \<open>reddit_scraper\<close>: against a server that answers 403
  to everything \<open>main\<close> completes with no post and writes no output file (only the
  checkpoint).
\<close>

theorem empty_reddit_run_writes_no_output:
  "reddit_main 2 net_forbidden fromtimestamp_utc Absent date_2024_01_01 date_2024_01_15
      ''json'' ''out.json'' 2 5 world0
     = Some (Inr (sc_example, \<lparr>tick = 9, trace = trace_forbidden_run\<rparr>))
   \<and> posts sc_example = []
   \<and> \<not> output_written trace_forbidden_run"
proof -
  have p: "posts sc_example = []"
    by (simp add: sc_example_eq)
  have "reddit_main 2 net_forbidden fromtimestamp_utc Absent date_2024_01_01 date_2024_01_15
      ''json'' ''out.json'' 2 5 world0
     = Some (save_output sc_example \<lparr>tick = 9, trace = trace_forbidden_run\<rparr>)"
    unfolding reddit_main_def sc_example_def [symmetric] scrape_forbidden by simp
  moreover have "save_output sc_example \<lparr>tick = 9, trace = trace_forbidden_run\<rparr>
      = Inr (sc_example, \<lparr>tick = 9, trace = trace_forbidden_run\<rparr>)"
    using p by (simp add: save_output_def)
  moreover have "\<not> output_written trace_forbidden_run"
    by (simp add: trace_forbidden_run_def)
  ultimately show ?thesis using p by simp
qed

end
